theory Spec2Isabelle
  imports Main "HOL-Library.Word"
begin

section \<open>JavaScript strings\<close>

text \<open>
  A JavaScript string is a sequence of 16-bit code units; \<open>length\<close>, \<open>slice\<close>,
  \<open>split\<close> and \<open>substring\<close> all count code units. The source itself uses a character
  outside Latin-1 (U+2019 in \<open>getUserDataFromHtml\<close>), so a code unit is a \<open>16 word\<close>.
  \<open>str\<close> writes an ASCII literal as such a string.
\<close>

type_synonym jschar = "16 word"
type_synonym jsstring = "jschar list"

definition str :: "string \<Rightarrow> jsstring" where
  "str cs = map of_char cs"

text \<open>
  WhiteSpace and LineTerminator of ECMA-262: what \<open>String.prototype.trim\<close>,
  \<open>parseInt\<close> and the conversion of a string to a number skip.
\<close>

definition is_StrWhiteSpaceChar :: "jschar \<Rightarrow> bool" where
  "is_StrWhiteSpaceChar c =
     ((0x0009 \<le> c \<and> c \<le> 0x000D) \<or> c = 0x0020 \<or> c = 0x00A0 \<or> c = 0x1680 \<or>
      (0x2000 \<le> c \<and> c \<le> 0x200A) \<or> c = 0x2028 \<or> c = 0x2029 \<or> c = 0x202F \<or>
      c = 0x205F \<or> c = 0x3000 \<or> c = 0xFEFF)"

definition trimStart :: "jsstring \<Rightarrow> jsstring" where
  "trimStart s = dropWhile is_StrWhiteSpaceChar s"

definition trimEnd :: "jsstring \<Rightarrow> jsstring" where
  "trimEnd s = rev (dropWhile is_StrWhiteSpaceChar (rev s))"

definition trim :: "jsstring \<Rightarrow> jsstring" where
  "trim s = trimEnd (trimStart s)"

text \<open>
  \<open>s.lastIndexOf(c)\<close> for a one-character search string: the greatest index holding
  \<open>c\<close>, or \<open>-1\<close>. The scan keeps the running index \<open>i\<close> and the last hit \<open>r\<close>.
\<close>

fun lastIndexOf_aux :: "jsstring \<Rightarrow> jschar \<Rightarrow> int \<Rightarrow> int \<Rightarrow> int" where
  "lastIndexOf_aux [] c i r = r"
| "lastIndexOf_aux (x # xs) c i r = lastIndexOf_aux xs c (i + 1) (if x = c then i else r)"

definition lastIndexOf :: "jsstring \<Rightarrow> jschar \<Rightarrow> int" where
  "lastIndexOf s c = lastIndexOf_aux s c 0 (- 1)"

text \<open>
  \<open>s.slice(start, end)\<close>: a negative bound counts from the end, both bounds are clamped
  to the string. \<open>slice_from\<close> is the one-argument form \<open>s.slice(start)\<close>.
\<close>

definition slice :: "jsstring \<Rightarrow> int \<Rightarrow> int \<Rightarrow> jsstring" where
  "slice s start end =
     (let len = int (length s);
          from = (if start < 0 then max (len + start) 0 else min start len);
          to = (if end < 0 then max (len + end) 0 else min end len)
      in take (nat (to - from)) (drop (nat from) s))"

definition slice_from :: "jsstring \<Rightarrow> int \<Rightarrow> jsstring" where
  "slice_from s start = slice s start (int (length s))"

fun startsWith :: "jsstring \<Rightarrow> jsstring \<Rightarrow> bool" where
  "startsWith s [] = True"
| "startsWith [] (p # ps) = False"
| "startsWith (c # cs) (p # ps) = (c = p \<and> startsWith cs ps)"

subsection \<open>Is a string a number: the global \<open>isNaN\<close> on a string\<close>

text \<open>
  \<open>isNaN(s)\<close> converts its argument to a number first; for a string this is
  StringToNumber, which is NaN exactly when the string is not a StringNumericLiteral:
  optional white space around nothing at all, or around a signed decimal literal
  (\<open>Infinity\<close>, digits with an optional fraction and exponent) or an unsigned binary,
  octal or hexadecimal integer literal.
\<close>

definition is_digit :: "jschar \<Rightarrow> bool" where
  "is_digit c = (0x30 \<le> c \<and> c \<le> 0x39)"

definition is_hex_digit :: "jschar \<Rightarrow> bool" where
  "is_hex_digit c = (is_digit c \<or> (0x41 \<le> c \<and> c \<le> 0x46) \<or> (0x61 \<le> c \<and> c \<le> 0x66))"

definition DecimalDigits :: "jsstring \<Rightarrow> bool" where
  "DecimalDigits s = (s \<noteq> [] \<and> list_all is_digit s)"

definition SignedInteger :: "jsstring \<Rightarrow> bool" where
  "SignedInteger s =
     (case s of [] \<Rightarrow> False
      | c # r \<Rightarrow> if c = 0x2B \<or> c = 0x2D then DecimalDigits r else DecimalDigits s)"

definition ExponentPart_opt :: "jsstring \<Rightarrow> bool" where
  "ExponentPart_opt s =
     (case s of [] \<Rightarrow> True | c # r \<Rightarrow> (c = 0x65 \<or> c = 0x45) \<and> SignedInteger r)"

definition StrUnsignedDecimalLiteral :: "jsstring \<Rightarrow> bool" where
  "StrUnsignedDecimalLiteral s =
     (s = str ''Infinity'' \<or>
      (let ip = takeWhile is_digit s; r = dropWhile is_digit s in
       case r of
         [] \<Rightarrow> ip \<noteq> []
       | c # r' \<Rightarrow>
           if c = 0x2E then
             (let fp = takeWhile is_digit r'; r'' = dropWhile is_digit r'
              in (ip \<noteq> [] \<or> fp \<noteq> []) \<and> ExponentPart_opt r'')
           else ip \<noteq> [] \<and> ExponentPart_opt r))"

definition StrDecimalLiteral :: "jsstring \<Rightarrow> bool" where
  "StrDecimalLiteral s =
     (case s of [] \<Rightarrow> False
      | c # r \<Rightarrow> if c = 0x2B \<or> c = 0x2D then StrUnsignedDecimalLiteral r
                 else StrUnsignedDecimalLiteral s)"

definition NonDecimalIntegerLiteral :: "jsstring \<Rightarrow> bool" where
  "NonDecimalIntegerLiteral s =
     (case s of
        z # p # ds \<Rightarrow>
          z = 0x30 \<and> ds \<noteq> [] \<and>
          (if p = 0x62 \<or> p = 0x42 then list_all (\<lambda>d. d = 0x30 \<or> d = 0x31) ds
           else if p = 0x6F \<or> p = 0x4F then list_all (\<lambda>d. 0x30 \<le> d \<and> d \<le> 0x37) ds
           else if p = 0x78 \<or> p = 0x58 then list_all is_hex_digit ds
           else False)
      | _ \<Rightarrow> False)"

definition StrNumericLiteral :: "jsstring \<Rightarrow> bool" where
  "StrNumericLiteral s = (StrDecimalLiteral s \<or> NonDecimalIntegerLiteral s)"

definition isNaN :: "jsstring \<Rightarrow> bool" where
  "isNaN s = (let t = trim s in \<not> (t = [] \<or> StrNumericLiteral t))"

section \<open>The slug normalizer\<close>

text \<open>
  \<^verbatim>\<open>function stripYearFromSlug(slug)\<close>: the guard \<open>slug &&\<close> is the truthiness of a
  string, that is, it is not empty.
\<close>

definition stripYearFromSlug :: "jsstring \<Rightarrow> jsstring" where
  "stripYearFromSlug slug =
     (if slug \<noteq> [] \<and> 5 \<le> length slug then
        (let lastHyphenIndex = lastIndexOf slug 0x2D in
         if lastHyphenIndex \<noteq> - 1 then
           (let possibleYear = slice_from slug (lastHyphenIndex + 1) in
            if length possibleYear = 4 \<and> \<not> isNaN possibleYear
            then slice slug 0 lastHyphenIndex
            else slug)
         else slug)
      else slug)"

text \<open>
  The condition under which the source takes its inner \<open>return\<close>, read off the string:
  \<open>after_last_hyphen\<close> is what follows the last hyphen.
\<close>

definition after_last_hyphen :: "jsstring \<Rightarrow> jsstring" where
  "after_last_hyphen s = rev (takeWhile (\<lambda>c. c \<noteq> 0x2D) (rev s))"

definition strippable :: "jsstring \<Rightarrow> bool" where
  "strippable s =
     (5 \<le> length s \<and> 0x2D \<in> set s \<and> length (after_last_hyphen s) = 4 \<and>
      \<not> isNaN (after_last_hyphen s))"

section \<open>Further platform functions\<close>

text \<open>
  \<open>s.split(sep)\<close> for a one-character separator (the empty string gives one empty
  part), \<open>s.split('')\<close>, \<open>parts.join(sep)\<close>, \<open>parts.indexOf(x)\<close>,
  \<open>s.includes(p)\<close> and \<open>s.replace(p, r)\<close> for a string pattern (the first
  occurrence; the replacement text of the source has no \<open>$\<close> in it).
\<close>

fun split :: "jsstring \<Rightarrow> jschar \<Rightarrow> jsstring list" where
  "split [] sep = [[]]"
| "split (c # cs) sep =
     (if c = sep then [] # split cs sep
      else (case split cs sep of [] \<Rightarrow> [[c]] | p # ps \<Rightarrow> (c # p) # ps))"

definition split_chars :: "jsstring \<Rightarrow> jsstring list" where
  "split_chars s = map (\<lambda>c. [c]) s"

fun join :: "jsstring list \<Rightarrow> jsstring \<Rightarrow> jsstring" where
  "join [] sep = []"
| "join [p] sep = p"
| "join (p # q # ps) sep = p @ sep @ join (q # ps) sep"

fun indexOf_aux :: "jsstring list \<Rightarrow> jsstring \<Rightarrow> int \<Rightarrow> int" where
  "indexOf_aux [] x i = - 1"
| "indexOf_aux (y # ys) x i = (if y = x then i else indexOf_aux ys x (i + 1))"

definition indexOf :: "jsstring list \<Rightarrow> jsstring \<Rightarrow> int" where
  "indexOf xs x = indexOf_aux xs x 0"

fun includes_str :: "jsstring \<Rightarrow> jsstring \<Rightarrow> bool" where
  "includes_str [] p = (p = [])"
| "includes_str (c # cs) p = (startsWith (c # cs) p \<or> includes_str cs p)"

fun replace :: "jsstring \<Rightarrow> jsstring \<Rightarrow> jsstring \<Rightarrow> jsstring" where
  "replace [] p r = (if p = [] then r else [])"
| "replace (c # cs) p r =
     (if startsWith (c # cs) p then r @ drop (length p) (c # cs) else c # replace cs p r)"

text \<open>
  Reading an array element gives \<open>undefined\<close> (here \<open>None\<close>) out of range, and a
  template literal writes \<open>undefined\<close> as the text \<open>undefined\<close>.
\<close>

definition at :: "'a list \<Rightarrow> int \<Rightarrow> 'a option" where
  "at xs i = (if 0 \<le> i \<and> i < int (length xs) then Some (xs ! nat i) else None)"

definition template :: "jsstring option \<Rightarrow> jsstring" where
  "template v = (case v of None \<Rightarrow> str ''undefined'' | Some s \<Rightarrow> s)"

text \<open>Truthiness of a value that is a string or \<open>undefined\<close>/\<open>null\<close>.\<close>

definition truthy :: "jsstring option \<Rightarrow> bool" where
  "truthy v = (case v of None \<Rightarrow> False | Some s \<Rightarrow> s \<noteq> [])"

subsection \<open>Thrown values\<close>

text \<open>
  A thrown value, with the text that \<open>${e}\<close> gives it. Calling a method on
  \<open>undefined\<close> or \<open>null\<close> throws a TypeError; a fetch or a body read that does not
  complete rejects; cheerio's \<open>text()\<close> walks the selected elements recursively and
  throws a RangeError (the call stack is exhausted) on markup that is nested deeply
  enough.
\<close>

datatype js_error = TypeError jsstring | FetchError jsstring | RangeError jsstring

definition error_text :: "js_error \<Rightarrow> jsstring" where
  "error_text e = (case e of TypeError m \<Rightarrow> m | FetchError m \<Rightarrow> m | RangeError m \<Rightarrow> m)"

definition and_then :: "js_error + 'a \<Rightarrow> ('a \<Rightarrow> js_error + 'b) \<Rightarrow> js_error + 'b" where
  "and_then m f = (case m of Inl e \<Rightarrow> Inl e | Inr x \<Rightarrow> f x)"

definition call_method :: "'a option \<Rightarrow> ('a \<Rightarrow> 'b) \<Rightarrow> js_error + 'b" where
  "call_method receiver f =
     (case receiver of
        None \<Rightarrow> Inl (TypeError (str ''TypeError: Cannot read properties of undefined''))
      | Some v \<Rightarrow> Inr (f v))"

subsection \<open>Numbers and \<open>parseInt\<close>\<close>

text \<open>
  A number is an IEEE 754 double. The numbers that \<open>parseInt\<close> can return are NaN,
  the two zeros, the two infinities, and the finite doubles whose value is an integer:
  \<open>Num n\<close> is the double whose value is exactly \<open>n\<close>.

  \<open>round_to_double a\<close> is the double nearest to the positive integer \<open>a\<close>, ties to
  the even significand: an integer of at most 53 bits is a double; a longer one keeps
  its leading 53 bits, rounded; \<open>None\<close> when the result is beyond the largest double
  (the number is then infinite).
\<close>

datatype js_number = NaN | Num int | NegZero | PosInfinity | NegInfinity

function bit_length :: "int \<Rightarrow> nat" where
  "bit_length n = (if n \<le> 0 then 0 else Suc (bit_length (n div 2)))"
  by pat_completeness auto

termination
  by (relation "measure nat") auto

declare bit_length.simps [simp del]

definition round_to_double :: "int \<Rightarrow> int option" where
  "round_to_double a =
     (if bit_length a \<le> 53 then Some a
      else
        (let ulp = 2 ^ (bit_length a - 53);
             q = a div ulp;
             r = a mod ulp;
             q' = (if 2 * r < ulp then q
                   else if ulp < 2 * r then q + 1
                   else if even q then q else q + 1);
             v = q' * ulp
         in if v < 2 ^ 1024 then Some v else None))"

text \<open>
  The number of a sign and a non-negative integer \<open>mathInt\<close>, as the last steps of
  \<open>parseInt\<close> make it: a signed zero for 0, otherwise the double nearest to
  \<open>sign * mathInt\<close>.
\<close>

definition number_of :: "int \<Rightarrow> int \<Rightarrow> js_number" where
  "number_of sign mathInt =
     (if mathInt = 0 then (if sign = - 1 then NegZero else Num 0)
      else
        (case round_to_double mathInt of
           None \<Rightarrow> if sign = - 1 then NegInfinity else PosInfinity
         | Some v \<Rightarrow> Num (sign * v)))"

text \<open>
  \<open>parseInt(string, 10)\<close>: skip leading white space, take an optional sign, then the
  longest run of decimal digits; NaN when that run is empty, otherwise the number of the
  sign and of the integer the digits write. (ECMA-262 allows an implementation to read
  the digits after the 20th as zeros; V8 rounds the whole integer, as here.)
\<close>

definition digit_value :: "jschar \<Rightarrow> int" where
  "digit_value c = uint c - 48"

definition digits_value :: "jsstring \<Rightarrow> int" where
  "digits_value Z = foldl (\<lambda>a c. 10 * a + digit_value c) 0 Z"

definition parseInt :: "jsstring \<Rightarrow> js_number" where
  "parseInt string =
     (let S = trimStart string;
          sign = (case S of [] \<Rightarrow> 1 | c # r \<Rightarrow> if c = 0x2D then - 1 else 1);
          S' = (case S of [] \<Rightarrow> S | c # r \<Rightarrow> if c = 0x2B \<or> c = 0x2D then r else S);
          Z = takeWhile is_digit S'
      in if Z = [] then NaN else number_of sign (digits_value Z))"

subsection \<open>Dates\<close>

text \<open>
  A Date object holds a time value in milliseconds, or NaN (an Invalid Date).
  \<open>new Date(text)\<close> never throws; which texts it accepts beyond the ISO format is left
  to the platform by ECMA-262, so the parser is a parameter of the model (\<open>Date_parse\<close>
  below). \<open>Date_parse_ISO\<close> is one such parser, used to run examples: the date-only
  form \<open>YYYY-MM-DD\<close> with month 01 to 12 and day 01 to 31, read as UTC midnight (a
  day past the end of its month runs into the next month, as in V8), and everything else
  an Invalid Date.
\<close>

datatype js_date = InvalidDate | ValidDate int

definition days_from_civil :: "int \<Rightarrow> int \<Rightarrow> int \<Rightarrow> int" where
  "days_from_civil y m d =
     (let y' = (if m \<le> 2 then y - 1 else y);
          era = y' div 400;
          yoe = y' - era * 400;
          doy = (153 * (if 2 < m then m - 3 else m + 9) + 2) div 5 + d - 1;
          doe = yoe * 365 + yoe div 4 - yoe div 100 + doy
      in era * 146097 + doe - 719468)"

definition Date_parse_ISO :: "jsstring \<Rightarrow> js_date" where
  "Date_parse_ISO s =
     (if length s = 10 \<and> s ! 4 = 0x2D \<and> s ! 7 = 0x2D \<and> list_all is_digit (take 4 s) \<and>
         list_all is_digit (take 2 (drop 5 s)) \<and> list_all is_digit (drop 8 s)
      then
        (let y = digits_value (take 4 s);
             m = digits_value (take 2 (drop 5 s));
             d = digits_value (drop 8 s)
         in if 1 \<le> m \<and> m \<le> 12 \<and> 1 \<le> d \<and> d \<le> 31
            then ValidDate (days_from_civil y m d * 86400000)
            else InvalidDate)
      else InvalidDate)"

section \<open>The page parser\<close>

text \<open>
  The source reads a page through cheerio selections. A document is modelled by what
  those selections give: the number of elements a selector matches, the attribute of
  the first element of a selection (\<open>undefined\<close>, here \<open>None\<close>, when there is
  none), and what \<open>text()\<close> does on a selection: it returns the text (empty when
  nothing matches) or throws a RangeError when the selected elements are nested too
  deeply. A row is one \<open>tr.diary-entry-row\<close>, in document order. \<open>cheerio.load\<close>
  accepts every string.
\<close>

record row =
  data_film_id :: "jsstring option"
  data_film_slug :: "jsstring option"
  headline_text :: "js_error + jsstring"
  day_href :: "jsstring option"
  rateit_value :: "jsstring option"
  icon_liked :: nat

record document =
  paginate_pages :: nat
  title_text :: "js_error + jsstring"
  avatar_src :: "jsstring option"
  diary_rows :: "row list"

record response =
  status :: nat
  text_of :: "js_error + jsstring"

record env =
  cheerio_load :: "jsstring \<Rightarrow> document"
  Date_parse :: "jsstring \<Rightarrow> js_date"
  fetch :: "jsstring \<Rightarrow> js_error + response"

record movie =
  filmId :: "jsstring option"
  title :: jsstring
  posterUrl :: "jsstring option"
  watchDate :: "js_date option"
  rating :: "js_number option"
  isLiked :: bool

record user_data =
  name :: jsstring
  profilePicUrl :: "jsstring option"

text \<open>\<^verbatim>\<open>function getPageCountFromHtml(html)\<close>\<close>

definition getPageCountFromHtml :: "env \<Rightarrow> jsstring \<Rightarrow> js_error + nat" where
  "getPageCountFromHtml env html =
     (let doc = cheerio_load env html;
          pageCount = paginate_pages doc
      in Inr pageCount)"

text \<open>
  \<^verbatim>\<open>function getUserDataFromHtml(html)\<close>. The separator of the split is U+2019;
  \<open>substring(1)\<close> drops the first code unit.
\<close>

definition getUserDataFromHtml :: "env \<Rightarrow> jsstring \<Rightarrow> js_error + user_data" where
  "getUserDataFromHtml env html =
     (let doc = cheerio_load env html
      in and_then (title_text doc) (\<lambda>t.
         let pageTitle = trim t
         in and_then (call_method (at (split pageTitle 0x2019) 0) trim) (\<lambda>name0.
              let name1 = drop 1 name0;
                  src = avatar_src doc;
                  pic = (case src of
                           None \<Rightarrow> None
                         | Some p \<Rightarrow>
                             if p \<noteq> [] \<and> includes_str p (str ''-0-48-0-48-crop'')
                             then Some (replace p (str ''-0-48-0-48-crop'')
                                          (str ''-0-220-0-220-crop''))
                             else None)
              in Inr \<lparr>name = name1, profilePicUrl = pic\<rparr>)))"

text \<open>
  The body of the \<open>each\<close> callback of \<^verbatim>\<open>getMovieDataFromHtml\<close>, field by field.
\<close>

definition filmId_of :: "row \<Rightarrow> js_error + jsstring option" where
  "filmId_of r =
     (if truthy (data_film_id r)
      then and_then (call_method (data_film_id r) trim) (\<lambda>s. Inr (Some s))
      else Inr None)"

definition filmSlug_of :: "row \<Rightarrow> js_error + jsstring option" where
  "filmSlug_of r =
     (if truthy (data_film_slug r)
      then and_then (call_method (data_film_slug r) trim) (\<lambda>s. Inr (Some (stripYearFromSlug s)))
      else Inr None)"

definition posterUrl_of :: "jsstring option \<Rightarrow> jsstring option \<Rightarrow> jsstring option" where
  "posterUrl_of fid fslug =
     (if truthy fid \<and> truthy fslug then
        (case (fid, fslug) of
           (Some i, Some sl) \<Rightarrow>
             (let idDigits = split_chars i;
                  path = join idDigits (str ''/'')
              in Some (str ''https://a.ltrbxd.com/resized/film-poster/'' @ path @ str ''/'' @
                       i @ str ''-'' @ sl @ str ''-0-300-0-450-crop.jpg''))
         | _ \<Rightarrow> None)
      else None)"

definition watchDate_of :: "env \<Rightarrow> row \<Rightarrow> js_date option" where
  "watchDate_of env r =
     (case day_href r of
        None \<Rightarrow> None
      | Some dateUrl \<Rightarrow>
          if dateUrl \<noteq> [] then
            (let dateParts = filter (\<lambda>p. p \<noteq> []) (split dateUrl 0x2F);
                 forIndex = indexOf dateParts (str ''for'')
             in if forIndex \<noteq> - 1 \<and> forIndex + 3 < int (length dateParts) then
                  (let year = at dateParts (forIndex + 1);
                       month = at dateParts (forIndex + 2);
                       day = at dateParts (forIndex + 3)
                   in Some (Date_parse env
                        (template year @ str ''-'' @ template month @ str ''-'' @ template day)))
                else None)
          else None)"

definition rating_of :: "row \<Rightarrow> js_number option" where
  "rating_of r =
     (case rateit_value r of
        None \<Rightarrow> None
      | Some ratingValue \<Rightarrow> Some (parseInt ratingValue))"

definition diary_entry :: "env \<Rightarrow> row \<Rightarrow> js_error + movie" where
  "diary_entry env r =
     and_then (filmId_of r) (\<lambda>fid.
     and_then (filmSlug_of r) (\<lambda>fslug.
     and_then (headline_text r) (\<lambda>t.
       Inr \<lparr>filmId = fid,
            title = trim t,
            posterUrl = posterUrl_of fid fslug,
            watchDate = watchDate_of env r,
            rating = rating_of r,
            isLiked = (0 < icon_liked r)\<rparr>)))"

text \<open>The \<open>each\<close> loop pushes one movie per row, and stops at a throw.\<close>

fun each_row :: "env \<Rightarrow> row list \<Rightarrow> movie list \<Rightarrow> js_error + movie list" where
  "each_row env [] movies = Inr movies"
| "each_row env (r # rs) movies =
     and_then (diary_entry env r) (\<lambda>m. each_row env rs (movies @ [m]))"

text \<open>\<^verbatim>\<open>function getMovieDataFromHtml(html)\<close>\<close>

definition getMovieDataFromHtml :: "env \<Rightarrow> jsstring \<Rightarrow> js_error + movie list" where
  "getMovieDataFromHtml env html =
     (let doc = cheerio_load env html
      in each_row env (diary_rows doc) [])"

section \<open>The response body\<close>

text \<open>
  The handler returns \<open>JSON.stringify({ movies, name, profilePicUrl })\<close>. The body is
  modelled by the JSON value written: \<open>JSON.stringify\<close> writes a number that is NaN or
  infinite as \<open>null\<close>, either zero as \<open>0\<close>, and a Date through \<open>toJSON\<close>, which is
  \<open>null\<close> for an Invalid Date and the ISO text of the time value otherwise (\<open>Some t\<close>
  stands for that text).
\<close>

definition JSON_date :: "js_date \<Rightarrow> int option" where
  "JSON_date d = (case d of InvalidDate \<Rightarrow> None | ValidDate t \<Rightarrow> Some t)"

definition JSON_number :: "js_number \<Rightarrow> int option" where
  "JSON_number x =
     (case x of
        NaN \<Rightarrow> None
      | Num n \<Rightarrow> Some n
      | NegZero \<Rightarrow> Some 0
      | PosInfinity \<Rightarrow> None
      | NegInfinity \<Rightarrow> None)"

record json_movie =
  json_filmId :: "jsstring option"
  json_title :: jsstring
  json_posterUrl :: "jsstring option"
  json_watchDate :: "int option"
  json_rating :: "int option"
  json_isLiked :: bool

definition JSON_movie :: "movie \<Rightarrow> json_movie" where
  "JSON_movie m =
     \<lparr>json_filmId = filmId m,
      json_title = title m,
      json_posterUrl = posterUrl m,
      json_watchDate = Option.bind (watchDate m) JSON_date,
      json_rating = Option.bind (rating m) JSON_number,
      json_isLiked = isLiked m\<rparr>"

datatype body = ErrorBody jsstring | DataBody "json_movie list" jsstring "jsstring option"

record http_result =
  statusCode :: nat
  headers :: "(jsstring \<times> jsstring) list"
  body :: body

section \<open>The fetch orchestrator\<close>

text \<open>A non-negative integer in a template literal: its decimal digits.\<close>

fun decimal :: "nat \<Rightarrow> jsstring" where
  "decimal n =
     (if n < 10 then [of_nat (48 + n)] else decimal (n div 10) @ [of_nat (48 + n mod 10)])"

declare decimal.simps [simp del]

text \<open>
  \<open>Promise.all\<close> over tasks whose outcomes are \<open>outcomes\<close> (by index) and which
  settle in the order \<open>order\<close> (a list of indices, the schedule of the run). As in
  ECMA-262, a fulfilment stores its value at the task's own index and the promise is
  fulfilled with the array once every index is filled; the first rejection rejects the
  promise, and whatever settles afterwards changes nothing. A schedule that never
  settles some task leaves the promise pending.
\<close>

datatype 'a promise = Pending "'a option list" | Fulfilled "'a list" | RejectedWith js_error

definition settle :: "(js_error + 'a) list \<Rightarrow> 'a promise \<Rightarrow> nat \<Rightarrow> 'a promise" where
  "settle outcomes p i =
     (case p of
        Pending values \<Rightarrow>
          if i < length outcomes then
            (case outcomes ! i of
               Inl e \<Rightarrow> RejectedWith e
             | Inr v \<Rightarrow>
                 (let values' = values[i := Some v]
                  in case those values' of
                       Some vs \<Rightarrow> Fulfilled vs
                     | None \<Rightarrow> Pending values'))
          else p
      | Fulfilled vs \<Rightarrow> p
      | RejectedWith e \<Rightarrow> p)"

definition Promise_all :: "(js_error + 'a) list \<Rightarrow> nat list \<Rightarrow> 'a promise" where
  "Promise_all outcomes order =
     (if outcomes = [] then Fulfilled []
      else foldl (settle outcomes) (Pending (replicate (length outcomes) None)) order)"

record query =
  url :: "jsstring option"

record event =
  queryStringParameters :: "query option"

definition bad_request :: "jsstring \<Rightarrow> http_result" where
  "bad_request msg = \<lparr>statusCode = 400, headers = [], body = ErrorBody msg\<rparr>"

definition success_headers :: "(jsstring \<times> jsstring) list" where
  "success_headers =
     [(str ''Content-Type'', str ''application/json''),
      (str ''Access-Control-Allow-Origin'', str ''*''),
      (str ''Netlify-CDN-Cache-Control'',
       str ''public, s-maxage='' @ decimal (60 * 60 * 24) @ str '', stale-while-revalidate='' @
       decimal (60 * 60 * 48) @ str '', durable''),
      (str ''Netlify-Cache-Tag'', str ''letterboxd-diary'')]"

text \<open>The loop \<open>for (let i = 2; i <= pageCount; i++)\<close> and the task of one page.\<close>

definition pageUrls_of :: "jsstring \<Rightarrow> nat \<Rightarrow> jsstring list" where
  "pageUrls_of u pageCount =
     map (\<lambda>i. u @ str ''page/'' @ decimal i @ str ''/'') [2..<Suc pageCount]"

definition page_task :: "env \<Rightarrow> jsstring \<Rightarrow> js_error + movie list" where
  "page_task env pageUrl =
     and_then (fetch env pageUrl) (\<lambda>res.
     and_then (text_of res) (\<lambda>html.
       getMovieDataFromHtml env html))"

text \<open>
  The \<open>try\<close> block of \<^verbatim>\<open>handler\<close>. The result is what the block returns or
  throws (\<open>None\<close> while the awaited promise is pending) and the addresses fetched, in
  the order the fetches are issued: \<open>pageUrls.map\<close> issues every page fetch before
  \<open>Promise.all\<close> is awaited. Every fetch carries the same constant request headers,
  which the model leaves out.
\<close>

definition try_block ::
  "env \<Rightarrow> nat list \<Rightarrow> jsstring \<Rightarrow> (js_error + http_result) option \<times> jsstring list" where
  "try_block env order u =
     (case fetch env u of
        Inl e \<Rightarrow> (Some (Inl e), [u])
      | Inr firstPageResponse \<Rightarrow>
          (case and_then (text_of firstPageResponse) (\<lambda>firstPageHtml.
                and_then (getPageCountFromHtml env firstPageHtml) (\<lambda>pageCount.
                and_then (getUserDataFromHtml env firstPageHtml) (\<lambda>ud.
                and_then (getMovieDataFromHtml env firstPageHtml) (\<lambda>movies.
                  Inr (pageCount, ud, movies))))) of
             Inl e \<Rightarrow> (Some (Inl e), [u])
           | Inr (pageCount, ud, movies) \<Rightarrow>
               (let pageUrls = pageUrls_of u pageCount in
                case Promise_all (map (page_task env) pageUrls) order of
                  Pending values \<Rightarrow> (None, u # pageUrls)
                | RejectedWith e \<Rightarrow> (Some (Inl e), u # pageUrls)
                | Fulfilled paginatedMovies \<Rightarrow>
                    (let allMovies = movies @ concat paginatedMovies in
                     (Some (Inr \<lparr>statusCode = status firstPageResponse,
                                 headers = success_headers,
                                 body = DataBody (map JSON_movie allMovies)
                                          (name ud) (profilePicUrl ud)\<rparr>),
                      u # pageUrls)))))"

text \<open>
  \<^verbatim>\<open>export async function handler(event)\<close>, for a run whose page fetches settle in
  the order \<open>order\<close>: the response (or \<open>None\<close> if the run never returns) and the
  addresses fetched.
\<close>

definition handler :: "env \<Rightarrow> nat list \<Rightarrow> event \<Rightarrow> http_result option \<times> jsstring list" where
  "handler env order event =
     (case queryStringParameters event of
        None \<Rightarrow> (Some (bad_request (str ''No URL provided'')), [])
      | Some q \<Rightarrow>
          if \<not> truthy (url q) then (Some (bad_request (str ''No URL provided'')), [])
          else
            (case url q of
               None \<Rightarrow> (Some (bad_request (str ''Invalid URL'')), [])
             | Some u \<Rightarrow>
                 if u = [] \<or> \<not> startsWith u (str ''https://letterboxd.com/'')
                 then (Some (bad_request (str ''Invalid URL'')), [])
                 else
                   (case try_block env order u of
                      (None, fetched) \<Rightarrow> (None, fetched)
                    | (Some (Inr result), fetched) \<Rightarrow> (Some result, fetched)
                    | (Some (Inl e), fetched) \<Rightarrow>
                        (Some \<lparr>statusCode = 500, headers = [],
                               body = ErrorBody (str ''Failed to fetch data: '' @ error_text e)\<rparr>,
                         fetched))))"

section \<open>Vocabulary of the claims\<close>

text \<open>
  The address of page \<open>k\<close>, a request for the address \<open>u\<close>, and a schedule in which
  each of \<open>n\<close> page fetches settles once.
\<close>

definition pageUrl :: "jsstring \<Rightarrow> nat \<Rightarrow> jsstring" where
  "pageUrl u k = u @ str ''page/'' @ decimal k @ str ''/''"

definition request :: "jsstring \<Rightarrow> event" where
  "request u = \<lparr>queryStringParameters = Some \<lparr>url = Some u\<rparr>\<rparr>"

definition completion_order :: "nat \<Rightarrow> nat list \<Rightarrow> bool" where
  "completion_order n order = (distinct order \<and> set order = {0..<n})"

text \<open>
  The fetch of an address together with the read of its body, the entries of the page at
  an address, and the response of the \<open>catch\<close> block.
\<close>

definition transport :: "env \<Rightarrow> jsstring \<Rightarrow> js_error + jsstring" where
  "transport env a = and_then (fetch env a) text_of"

definition page_entries :: "env \<Rightarrow> jsstring \<Rightarrow> movie list" where
  "page_entries env a =
     (case and_then (transport env a) (getMovieDataFromHtml env) of
        Inl e \<Rightarrow> []
      | Inr ms \<Rightarrow> ms)"

definition failure :: "js_error \<Rightarrow> http_result" where
  "failure e =
     \<lparr>statusCode = 500, headers = [],
      body = ErrorBody (str ''Failed to fetch data: '' @ error_text e)\<rparr>"

text \<open>
  Two invariants of \<open>Promise.all\<close>. What a promise holds comes from the outcomes: a
  stored value is the value of the task at that index, the array of a fulfilled promise
  is the values of all tasks, a rejection is the error of some task. And a pending
  promise has an index not yet filled, while the tasks of \<open>S\<close> that have settled are
  filled.
\<close>

definition promise_sound :: "(js_error + 'a) list \<Rightarrow> 'a promise \<Rightarrow> bool" where
  "promise_sound outcomes p =
     (case p of
        Pending values \<Rightarrow>
          length values = length outcomes \<and>
          (\<forall>i < length outcomes. \<forall>v. values ! i = Some v \<longrightarrow> outcomes ! i = Inr v)
      | Fulfilled vs \<Rightarrow> outcomes = map Inr vs
      | RejectedWith e \<Rightarrow> Inl e \<in> set outcomes)"

definition promise_filled :: "(js_error + 'a) list \<Rightarrow> nat set \<Rightarrow> 'a promise \<Rightarrow> bool" where
  "promise_filled outcomes S p =
     (case p of
        Pending values \<Rightarrow>
          length values = length outcomes \<and> those values = None \<and>
          (\<forall>i \<in> S. i < length outcomes \<longrightarrow> values ! i \<noteq> None)
      | Fulfilled vs \<Rightarrow> True
      | RejectedWith e \<Rightarrow> True)"

text \<open>
  The segments of a date-link address that the date is read from: the non-empty pieces
  between slashes, from the first \<open>for\<close> on.
\<close>

definition from_for :: "jsstring \<Rightarrow> jsstring list" where
  "from_for href =
     dropWhile (\<lambda>p. p \<noteq> str ''for'') (filter (\<lambda>p. p \<noteq> []) (split href 0x2F))"

text \<open>
  A value attribute that starts with a decimal integer: white space \<open>ws\<close>, an optional
  sign \<open>sg\<close>, the digits \<open>Z\<close>, and a rest \<open>t\<close> that does not go on with a digit.
\<close>

definition leading_integer ::
  "jsstring \<Rightarrow> jsstring \<Rightarrow> jsstring \<Rightarrow> jsstring \<Rightarrow> jsstring \<Rightarrow> bool" where
  "leading_integer v ws sg Z t =
     (v = ws @ sg @ Z @ t \<and> list_all is_StrWhiteSpaceChar ws \<and>
      (sg = [] \<or> sg = [0x2B] \<or> sg = [0x2D]) \<and> Z \<noteq> [] \<and> list_all is_digit Z \<and>
      (case t of [] \<Rightarrow> True | c # t' \<Rightarrow> \<not> is_digit c))"

text \<open>Every field of a row that finds nothing leaves its field of the entry absent or empty.\<close>

definition defaults_to_absent :: "row \<Rightarrow> movie \<Rightarrow> bool" where
  "defaults_to_absent r m =
     ((data_film_id r = None \<longrightarrow> filmId m = None) \<and>
      (data_film_id r = None \<or> data_film_slug r = None \<longrightarrow> posterUrl m = None) \<and>
      (headline_text r = Inr [] \<longrightarrow> title m = []) \<and>
      (day_href r = None \<longrightarrow> watchDate m = None) \<and>
      (rateit_value r = None \<longrightarrow> rating m = None) \<and>
      (icon_liked r = 0 \<longrightarrow> \<not> isLiked m))"

section \<open>A sample profile\<close>

text \<open>
  A platform to run the model on: a profile of three pages with two rows each, a
  profile that does not exist (status 404), a profile whose page has a row with a title
  nested too deeply for \<open>text()\<close>, and no other address reachable. The markup of a
  page is stood for by a name; \<open>sample_document\<close> is what cheerio finds in it.
\<close>

definition sample_row :: "string \<Rightarrow> row" where
  "sample_row t =
     \<lparr>data_film_id = None, data_film_slug = None, headline_text = Inr (str t),
      day_href = None, rateit_value = None, icon_liked = 0\<rparr>"

definition full_row :: row where
  "full_row =
     \<lparr>data_film_id = Some (str ''12345''), data_film_slug = Some (str ''oppenheimer-2023''),
      headline_text = Inr (str '' Oppenheimer ''),
      day_href = Some (str ''/bob/film/oppenheimer-2023/diary/for/2023/07/15/''),
      rateit_value = Some (str ''8''), icon_liked = 1\<rparr>"

definition empty_document :: document where
  "empty_document =
     \<lparr>paginate_pages = 0, title_text = Inr [], avatar_src = None, diary_rows = []\<rparr>"

text \<open>What \<open>text()\<close> throws on an element nested too deeply.\<close>

definition stack_overflow :: js_error where
  "stack_overflow = RangeError (str ''RangeError: Maximum call stack size exceeded'')"

definition sample_document :: "jsstring \<Rightarrow> document" where
  "sample_document html =
     (if html = str ''page 1'' then
        \<lparr>paginate_pages = 3,
         title_text = Inr ([0x200E] @ str ''Bob'' @ [0x2019] @ str ''s film diary''),
         avatar_src = Some (str ''https://a.ltrbxd.com/avatar/bob-0-48-0-48-crop.jpg''),
         diary_rows = [sample_row ''A'', sample_row ''B'']\<rparr>
      else if html = str ''page 2'' then
        empty_document\<lparr>diary_rows := [sample_row ''C'', sample_row ''D'']\<rparr>
      else if html = str ''page 3'' then
        empty_document\<lparr>diary_rows := [sample_row ''E'', sample_row ''F'']\<rparr>
      else if html = str ''one row'' then
        empty_document\<lparr>diary_rows := [full_row]\<rparr>
      else if html = str ''deep title'' then
        empty_document\<lparr>title_text := Inl stack_overflow\<rparr>
      else if html = str ''deep row'' then
        empty_document\<lparr>diary_rows :=
          [sample_row ''A'', (sample_row ''B'')\<lparr>headline_text := Inl stack_overflow\<rparr>]\<rparr>
      else empty_document)"

definition sample_url :: jsstring where
  "sample_url = str ''https://letterboxd.com/bob/films/diary/''"

definition sample_fetch :: "jsstring \<Rightarrow> js_error + response" where
  "sample_fetch u =
     (if u = sample_url then Inr \<lparr>status = 200, text_of = Inr (str ''page 1'')\<rparr>
      else if u = pageUrl sample_url 2 then Inr \<lparr>status = 200, text_of = Inr (str ''page 2'')\<rparr>
      else if u = pageUrl sample_url 3 then Inr \<lparr>status = 200, text_of = Inr (str ''page 3'')\<rparr>
      else if u = str ''https://letterboxd.com/nobody/films/diary/''
        then Inr \<lparr>status = 404, text_of = Inr (str ''not found'')\<rparr>
      else if u = str ''https://letterboxd.com/deep/films/diary/''
        then Inr \<lparr>status = 200, text_of = Inr (str ''deep row'')\<rparr>
      else Inl (FetchError (str ''TypeError: fetch failed'')))"

definition sample_env :: env where
  "sample_env =
     \<lparr>cheerio_load = sample_document, Date_parse = Date_parse_ISO, fetch = sample_fetch\<rparr>"

text \<open>The same profile while the fetch of its page 2 fails.\<close>

definition page2_down :: env where
  "page2_down =
     sample_env\<lparr>fetch := (\<lambda>u. if u = pageUrl sample_url 2
                                then Inl (FetchError (str ''TypeError: fetch failed''))
                                else sample_fetch u)\<rparr>"

section \<open>The string primitives\<close>

lemma lastIndexOf_aux_absent:
  "c \<notin> set xs \<Longrightarrow> lastIndexOf_aux xs c i r = r"
  by (induction xs arbitrary: i r) auto

lemma lastIndexOf_aux_last:
  "c \<notin> set t \<Longrightarrow> lastIndexOf_aux (p @ c # t) c i r = i + int (length p)"
  by (induction p arbitrary: i r) (auto simp: lastIndexOf_aux_absent)

lemma lastIndexOf_absent: "c \<notin> set s \<Longrightarrow> lastIndexOf s c = - 1"
  by (simp add: lastIndexOf_def lastIndexOf_aux_absent)

lemma lastIndexOf_last: "c \<notin> set t \<Longrightarrow> lastIndexOf (p @ c # t) c = int (length p)"
  by (simp add: lastIndexOf_def lastIndexOf_aux_last)

lemma after_last_hyphen_append:
  assumes "0x2D \<notin> set t"
  shows "after_last_hyphen (p @ 0x2D # t) = t"
proof -
  have all: "takeWhile (\<lambda>c. c \<noteq> 0x2D) (rev t) = rev t"
    using assms by (intro takeWhile_eq_all_conv [THEN iffD2]) auto
  show ?thesis
    by (simp add: after_last_hyphen_def takeWhile_tail all)
qed

lemma slice_prefix: "slice (p @ t) 0 (int (length p)) = p"
  by (simp add: slice_def Let_def min_def)

lemma slice_from_suffix: "slice_from (p @ c # t) (int (length p) + 1) = t"
  by (simp add: slice_from_def slice_def Let_def min_def nat_add_distrib)

text \<open>What the source computes, case by case.\<close>

lemma stripYearFromSlug_no_hyphen:
  "0x2D \<notin> set s \<Longrightarrow> stripYearFromSlug s = s"
  by (simp add: stripYearFromSlug_def lastIndexOf_absent)

lemma stripYearFromSlug_split:
  assumes "0x2D \<notin> set t"
  shows "stripYearFromSlug (p @ 0x2D # t) =
           (if length t = 4 \<and> \<not> isNaN t then p else p @ 0x2D # t)"
  using assms
  by (simp add: stripYearFromSlug_def lastIndexOf_last slice_from_suffix slice_prefix Let_def)

lemma stripYearFromSlug_strippable:
  "stripYearFromSlug s = (if strippable s then take (length s - 5) s else s)"
proof (cases "0x2D \<in> set s")
  case False
  then show ?thesis by (simp add: stripYearFromSlug_no_hyphen strippable_def)
next
  case True
  then obtain p t where s: "s = p @ 0x2D # t" and t: "0x2D \<notin> set t"
    by (meson split_list_last)
  show ?thesis
    unfolding s using t
    by (auto simp: stripYearFromSlug_split strippable_def after_last_hyphen_append)
qed

section \<open>The page parser, field by field\<close>

lemma and_then_Inr [simp]: "and_then (Inr x) f = f x"
  by (simp add: and_then_def)

lemma and_then_Inl [simp]: "and_then (Inl e) f = Inl e"
  by (simp add: and_then_def)

lemma call_method_Some [simp]: "call_method (Some v) f = Inr (f v)"
  by (simp add: call_method_def)

lemma truthy_simps [simp]: "truthy None = False" "truthy (Some s) = (s \<noteq> [])"
  by (simp_all add: truthy_def)

lemma filmId_of_value:
  "filmId_of r =
     Inr (case data_film_id r of None \<Rightarrow> None | Some a \<Rightarrow> if a = [] then None else Some (trim a))"
  by (cases "data_film_id r") (simp_all add: filmId_of_def)

lemma filmSlug_of_value:
  "filmSlug_of r =
     Inr (case data_film_slug r of None \<Rightarrow> None
          | Some a \<Rightarrow> if a = [] then None else Some (stripYearFromSlug (trim a)))"
  by (cases "data_film_slug r") (simp_all add: filmSlug_of_def)

lemma diary_entry_value:
  "diary_entry env r =
     (case headline_text r of
        Inl e \<Rightarrow> Inl e
      | Inr t \<Rightarrow>
          Inr \<lparr>filmId = projr (filmId_of r),
               title = trim t,
               posterUrl = posterUrl_of (projr (filmId_of r)) (projr (filmSlug_of r)),
               watchDate = watchDate_of env r,
               rating = rating_of r,
               isLiked = (0 < icon_liked r)\<rparr>)"
  by (cases "headline_text r") (simp_all add: diary_entry_def filmId_of_value filmSlug_of_value)

text \<open>A row throws exactly when reading its title throws.\<close>

lemma diary_entry_Inl: "diary_entry env r = Inl e \<longleftrightarrow> headline_text r = Inl e"
  by (simp add: diary_entry_value split: sum.splits)

lemma diary_entry_Inr:
  assumes "diary_entry env r = Inr m"
  shows "filmId m = projr (filmId_of r)"
    and "posterUrl m = posterUrl_of (projr (filmId_of r)) (projr (filmSlug_of r))"
    and "watchDate m = watchDate_of env r"
    and "rating m = rating_of r"
    and "isLiked m = (0 < icon_liked r)"
    and "\<exists>t. headline_text r = Inr t \<and> title m = trim t"
  using assms by (auto simp: diary_entry_value split: sum.splits)

lemma each_row_Inr:
  "each_row env rs acc = Inr ms \<longleftrightarrow>
     (\<exists>ms'. ms = acc @ ms' \<and> list_all2 (\<lambda>r m. diary_entry env r = Inr m) rs ms')"
proof (induction rs arbitrary: acc)
  case Nil
  then show ?case by auto
next
  case (Cons r rs)
  show ?case
  proof (cases "diary_entry env r")
    case (Inl e)
    then show ?thesis by (auto simp: list_all2_Cons1)
  next
    case (Inr m)
    then show ?thesis by (auto simp: Cons.IH list_all2_Cons1)
  qed
qed

lemma each_row_Inl:
  "each_row env rs acc = Inl e \<Longrightarrow> \<exists>r \<in> set rs. diary_entry env r = Inl e"
proof (induction rs arbitrary: acc)
  case Nil
  then show ?case by simp
next
  case (Cons r rs)
  then show ?case by (cases "diary_entry env r") auto
qed

lemma getMovieDataFromHtml_Inr:
  "getMovieDataFromHtml env html = Inr ms \<longleftrightarrow>
     list_all2 (\<lambda>r m. diary_entry env r = Inr m) (diary_rows (cheerio_load env html)) ms"
  by (simp add: getMovieDataFromHtml_def each_row_Inr)

lemma getMovieDataFromHtml_Inl:
  "getMovieDataFromHtml env html = Inl e \<Longrightarrow>
   \<exists>r \<in> set (diary_rows (cheerio_load env html)). headline_text r = Inl e"
  using each_row_Inl [of env "diary_rows (cheerio_load env html)" "[]" e]
  by (simp add: getMovieDataFromHtml_def diary_entry_Inl)

lemma split_not_Nil: "split s sep \<noteq> []"
  by (cases s) (simp_all split: list.splits)

lemma at_0: "at xs 0 = (case xs of [] \<Rightarrow> None | x # _ \<Rightarrow> Some x)"
  by (cases xs) (simp_all add: at_def)

lemma trim_Nil [simp]: "trim [] = []"
  by (simp add: trim_def trimStart_def trimEnd_def)

lemma digit_not_space: "is_digit c \<Longrightarrow> \<not> is_StrWhiteSpaceChar c"
  by (auto simp: is_digit_def is_StrWhiteSpaceChar_def word_le_nat_alt)

lemma digit_not_sign: "is_digit c \<Longrightarrow> c \<noteq> 0x2B \<and> c \<noteq> 0x2D"
  by (auto simp: is_digit_def)

section \<open>Claims about the slug normalizer\<close>

lemma dropWhile_none: "\<forall>x \<in> set xs. \<not> P x \<Longrightarrow> dropWhile P xs = xs"
  by (cases xs) auto

lemma trim_digits:
  assumes "list_all is_digit t"
  shows "trim t = t"
proof -
  from assms have none: "\<forall>x \<in> set t. \<not> is_StrWhiteSpaceChar x"
    by (auto simp: list_all_iff digit_not_space)
  then have "\<forall>x \<in> set (rev t). \<not> is_StrWhiteSpaceChar x"
    by simp
  then have "dropWhile is_StrWhiteSpaceChar (rev t) = rev t"
    by (rule dropWhile_none)
  with dropWhile_none [OF none] show ?thesis
    by (simp add: trim_def trimStart_def trimEnd_def)
qed

text \<open>A block of decimal digits is a number, so a block of four digits is removed.\<close>

lemma digits_not_isNaN:
  assumes "t \<noteq> []" and "list_all is_digit t"
  shows "\<not> isNaN t"
proof -
  from assms obtain c cs where t: "t = c # cs" and c: "is_digit c"
    by (cases t) auto
  have tw: "takeWhile is_digit t = t" and dw: "dropWhile is_digit t = []"
    using assms(2) by (simp_all add: list_all_iff)
  have "StrUnsignedDecimalLiteral t"
    using assms(1) by (simp add: StrUnsignedDecimalLiteral_def tw dw)
  with digit_not_sign [OF c] have "StrDecimalLiteral t"
    by (simp add: StrDecimalLiteral_def t)
  then show ?thesis
    using assms by (simp add: isNaN_def trim_digits StrNumericLiteral_def)
qed

text \<open>
  What is removed is the last hyphen and the four characters after it, and a block of
  four digits is removed.
\<close>

lemma strippable_shape:
  assumes "strippable s"
  shows "s = take (length s - 5) s @ 0x2D # after_last_hyphen s"
proof -
  from assms have "0x2D \<in> set s" and len: "length (after_last_hyphen s) = 4"
    by (simp_all add: strippable_def)
  then obtain p t where s: "s = p @ 0x2D # t" and t: "0x2D \<notin> set t"
    by (meson split_list_last)
  from len t have "length t = 4"
    by (simp add: s after_last_hyphen_append)
  with t show ?thesis
    by (simp add: s after_last_hyphen_append)
qed

lemma stripYearFromSlug_digits:
  assumes "5 \<le> length s" and "0x2D \<in> set s"
    and "length (after_last_hyphen s) = 4" and "list_all is_digit (after_last_hyphen s)"
  shows "stripYearFromSlug s = take (length s - 5) s"
proof -
  from assms(3) have "after_last_hyphen s \<noteq> []" by auto
  with assms show ?thesis
    by (simp add: stripYearFromSlug_strippable strippable_def digits_not_isNaN)
qed

text \<open>
  C1. The claim: the normalizer removes the trailing hyphen and 4 characters exactly
  when the input has at least 5 characters and a hyphen, and the 4 characters after the
  last hyphen are all decimal digits. The source tests these characters with
  \<open>!isNaN(possibleYear)\<close>, which holds of every 4-character numeric literal and not
  only of four digits: of \<open>film-1e10\<close> the block \<open>1e10\<close> has a letter in it and is
  removed all the same. A block of four digits is removed, as claimed
  (\<open>stripYearFromSlug_digits\<close>).
\<close>

theorem stripYearFromSlug_strips_non_digits:
  "stripYearFromSlug (str ''film-1e10'') = str ''film'' \<and>
   after_last_hyphen (str ''film-1e10'') = str ''1e10'' \<and>
   \<not> list_all is_digit (str ''1e10'')"
  by code_simp

text \<open>
  C2, as amended. The claim: applying the normalizer twice gives the same as applying it
  once. One application removes one block only, so this holds exactly when the input
  does not end in two blocks in a row that the source would remove: the input is
  removable and so is what is left of it without its last 5 characters.
\<close>

theorem stripYearFromSlug_twice:
  "stripYearFromSlug (stripYearFromSlug s) = stripYearFromSlug s \<longleftrightarrow>
     \<not> (strippable s \<and> strippable (take (length s - 5) s))"
proof (cases "strippable s")
  case False
  then show ?thesis by (simp add: stripYearFromSlug_strippable)
next
  case True
  let ?t = "take (length s - 5) s"
  have once: "stripYearFromSlug s = ?t"
    using True by (simp add: stripYearFromSlug_strippable)
  have shorter: "take (length ?t - 5) ?t \<noteq> ?t" if "strippable ?t"
  proof
    assume "take (length ?t - 5) ?t = ?t"
    then have "length (take (length ?t - 5) ?t) = length ?t" by simp
    moreover have "5 \<le> length ?t" using that by (simp add: strippable_def)
    ultimately show False by simp
  qed
  have "stripYearFromSlug ?t = (if strippable ?t then take (length ?t - 5) ?t else ?t)"
    by (rule stripYearFromSlug_strippable)
  with once shorter True show ?thesis by auto
qed

text \<open>
  C2, the counterexample: \<open>blade-runner-2049-2017\<close> becomes \<open>blade-runner-2049\<close>,
  and that becomes \<open>blade-runner\<close>.
\<close>

theorem stripYearFromSlug_not_idempotent:
  "stripYearFromSlug (stripYearFromSlug (str ''blade-runner-2049-2017'')) \<noteq>
   stripYearFromSlug (str ''blade-runner-2049-2017'')"
  by code_simp

lemma stripYearFromSlug_examples:
  "stripYearFromSlug (str ''oppenheimer-2023'') = str ''oppenheimer''"
  "stripYearFromSlug (str ''oppenheimer'') = str ''oppenheimer''"
  by code_simp+

section \<open>The poster address\<close>

lemma join_split_chars:
  "i \<noteq> [] \<Longrightarrow> join (split_chars i) sep @ sep = concat (map (\<lambda>c. c # sep) i)"
proof (induction i)
  case Nil
  then show ?case by simp
next
  case (Cons c cs)
  then show ?case by (cases cs) (simp_all add: split_chars_def)
qed

lemma posterUrl_of_value:
  "posterUrl_of fid fslug =
     (case (fid, fslug) of
        (Some i, Some sl) \<Rightarrow>
          if i \<noteq> [] \<and> sl \<noteq> [] then
            Some (str ''https://a.ltrbxd.com/resized/film-poster/'' @
                  concat (map (\<lambda>c. [c, 0x2F]) i) @ i @ str ''-'' @ sl @
                  str ''-0-300-0-450-crop.jpg'')
          else None
      | _ \<Rightarrow> None)"
proof -
  have "join (split_chars i) (str ''/'') @ str ''/'' @ rest =
          concat (map (\<lambda>c. [c, 0x2F]) i) @ rest" if "i \<noteq> []" for i rest
    using join_split_chars [OF that, of "str ''/''"] by (simp add: str_def)
  then show ?thesis
    by (simp add: posterUrl_of_def Let_def split: option.splits)
qed

text \<open>
  C5, as amended. The claim: the poster address is present if and only if the film id
  and the slug are both present and non-null, and then it is the fixed prefix, the
  characters of the film id each followed by a slash, the film id, a hyphen, the slug
  and the fixed suffix. The source tests the truthiness of both, so "present" is: both
  are strings and neither is empty. The slug is the normalized one.
\<close>

theorem posterUrl_present_iff:
  assumes "diary_entry env r = Inr m" and "filmSlug_of r = Inr fslug"
  shows "(posterUrl m \<noteq> None \<longleftrightarrow>
            (\<exists>i sl. filmId m = Some i \<and> fslug = Some sl \<and> i \<noteq> [] \<and> sl \<noteq> [])) \<and>
         (\<forall>i sl. filmId m = Some i \<and> fslug = Some sl \<and> i \<noteq> [] \<and> sl \<noteq> [] \<longrightarrow>
            posterUrl m =
              Some (str ''https://a.ltrbxd.com/resized/film-poster/'' @
                    concat (map (\<lambda>c. [c, 0x2F]) i) @ i @ str ''-'' @ sl @
                    str ''-0-300-0-450-crop.jpg''))"
proof -
  from diary_entry_Inr(1,2) [OF assms(1)] assms(2)
  have m: "filmId m = projr (filmId_of r)"
      "posterUrl m = posterUrl_of (projr (filmId_of r)) fslug"
    by simp_all
  show ?thesis
    unfolding m posterUrl_of_value by (auto split: option.splits)
qed

text \<open>
  C5, the counterexample: a row whose slug attribute is \<open>-2023\<close> has a film id and a
  slug that are both non-null (the normalized slug is the empty string), and no poster
  address.
\<close>

theorem posterUrl_absent_for_empty_slug:
  "filmId_of ((sample_row ''X'')\<lparr>data_film_id := Some (str ''12345''),
                                   data_film_slug := Some (str ''-2023'')\<rparr>) =
     Inr (Some (str ''12345'')) \<and>
   filmSlug_of ((sample_row ''X'')\<lparr>data_film_id := Some (str ''12345''),
                                     data_film_slug := Some (str ''-2023'')\<rparr>) =
     Inr (Some []) \<and>
   diary_entry sample_env
     ((sample_row ''X'')\<lparr>data_film_id := Some (str ''12345''),
                          data_film_slug := Some (str ''-2023'')\<rparr>) =
     Inr \<lparr>filmId = Some (str ''12345''), title = str ''X'', posterUrl = None,
          watchDate = None, rating = None, isLiked = False\<rparr>"
  by code_simp

text \<open>
  C5, a witness: the row of the film 12345 with slug \<open>oppenheimer-2023\<close>.
\<close>

theorem posterUrl_present_iff_witness:
  "diary_entry sample_env full_row =
     Inr \<lparr>filmId = Some (str ''12345''), title = str ''Oppenheimer'',
          posterUrl = Some (str
            ''https://a.ltrbxd.com/resized/film-poster/1/2/3/4/5/12345-oppenheimer-0-300-0-450-crop.jpg''),
          watchDate = Some (ValidDate 1689379200000), rating = Some (Num 8),
          isLiked = True\<rparr> \<and>
   filmSlug_of full_row = Inr (Some (str ''oppenheimer'')) \<and>
   Some (str ''https://a.ltrbxd.com/resized/film-poster/1/2/3/4/5/12345-oppenheimer-0-300-0-450-crop.jpg'') =
     Some (str ''https://a.ltrbxd.com/resized/film-poster/'' @
           concat (map (\<lambda>c. [c, 0x2F]) (str ''12345'')) @ str ''12345'' @ str ''-'' @
           str ''oppenheimer'' @ str ''-0-300-0-450-crop.jpg'')"
proof -
  have entry: "diary_entry sample_env full_row =
     Inr \<lparr>filmId = Some (str ''12345''), title = str ''Oppenheimer'',
          posterUrl = Some (str
            ''https://a.ltrbxd.com/resized/film-poster/1/2/3/4/5/12345-oppenheimer-0-300-0-450-crop.jpg''),
          watchDate = Some (ValidDate 1689379200000), rating = Some (Num 8),
          isLiked = True\<rparr>"
    by code_simp
  have slug: "filmSlug_of full_row = Inr (Some (str ''oppenheimer''))"
    by code_simp
  have "str ''12345'' \<noteq> []" "str ''oppenheimer'' \<noteq> []"
    by (simp_all add: str_def)
  with posterUrl_present_iff [OF entry slug] entry slug show ?thesis
    by simp
qed

section \<open>The watch date\<close>

lemma indexOf_aux_takeWhile:
  "indexOf_aux xs x i =
     (if x \<in> set xs then i + int (length (takeWhile (\<lambda>y. y \<noteq> x) xs)) else - 1)"
  by (induction xs arbitrary: i) auto

lemma at_append_right: "0 \<le> k \<Longrightarrow> at (xs @ ys) (int (length xs) + k) = at ys k"
  by (auto simp: at_def nth_append nat_add_distrib)

lemma at_Cons_numeral:
  "at (x # xs) 0 = Some x" "0 < k \<Longrightarrow> at (x # xs) k = at xs (k - 1)"
  by (auto simp: at_def nat_diff_distrib' nth_Cons')

lemma watchDate_of_value:
  "watchDate_of env r =
     (case day_href r of
        None \<Rightarrow> None
      | Some href \<Rightarrow>
          (case from_for href of
             f # y # mo # d # rest \<Rightarrow>
               Some (Date_parse env (y @ str ''-'' @ mo @ str ''-'' @ d))
           | _ \<Rightarrow> None))"
proof (cases "day_href r")
  case None
  then show ?thesis by (simp add: watchDate_of_def)
next
  case (Some href)
  define parts where "parts = filter (\<lambda>p. p \<noteq> []) (split href 0x2F)"
  define tw where "tw = takeWhile (\<lambda>p. p \<noteq> str ''for'') parts"
  define dw where "dw = dropWhile (\<lambda>p. p \<noteq> str ''for'') parts"
  have parts: "parts = tw @ dw" by (simp add: tw_def dw_def)
  have ix: "indexOf parts (str ''for'') = (if dw = [] then - 1 else int (length tw))"
    by (auto simp: indexOf_def indexOf_aux_takeWhile tw_def dw_def dropWhile_eq_Nil_conv)
  have empty: "parts = []" if "href = []"
    using that by (simp add: parts_def)
  have dw_empty: "dw = []" if "href = []"
    using empty [OF that] by (simp add: dw_def)
  have ff: "from_for href = dw"
    by (simp add: from_for_def dw_def parts_def)
  have body:
    "(if indexOf parts (str ''for'') \<noteq> - 1 \<and>
         indexOf parts (str ''for'') + 3 < int (length parts)
      then Some (Date_parse env
             (template (at parts (indexOf parts (str ''for'') + 1)) @ str ''-'' @
              template (at parts (indexOf parts (str ''for'') + 2)) @ str ''-'' @
              template (at parts (indexOf parts (str ''for'') + 3))))
      else None) =
     (case dw of
        f # y # mo # d # rest \<Rightarrow> Some (Date_parse env (y @ str ''-'' @ mo @ str ''-'' @ d))
      | _ \<Rightarrow> None)"
  proof -
    have len: "int (length parts) = int (length tw) + int (length dw)"
      by (simp add: parts)
    have at_k: "at parts (int (length tw) + k) = at dw k" if "0 \<le> k" for k
      unfolding parts using that by (rule at_append_right)
    show ?thesis
      unfolding ix
      by (auto simp: Let_def len at_k at_Cons_numeral template_def split: list.splits)
  qed
  show ?thesis
  proof (cases "href = []")
    case True
    with Some dw_empty ff show ?thesis by (simp add: watchDate_of_def)
  next
    case False
    with Some have
      "watchDate_of env r =
         (if indexOf parts (str ''for'') \<noteq> - 1 \<and>
             indexOf parts (str ''for'') + 3 < int (length parts)
          then Some (Date_parse env
                 (template (at parts (indexOf parts (str ''for'') + 1)) @ str ''-'' @
                  template (at parts (indexOf parts (str ''for'') + 2)) @ str ''-'' @
                  template (at parts (indexOf parts (str ''for'') + 3))))
          else None)"
      by (simp add: watchDate_of_def Let_def parts_def)
    with Some show ?thesis by (simp add: body ff)
  qed
qed

text \<open>
  C3, as amended. The claim: a date that is present is a valid calendar date, and a
  missing marker, fewer than 3 segments after it, or an invalid year, month and day
  give an absent date and no error. In the source a row throws exactly when reading its
  title does (\<open>text()\<close> on a title nested too deeply), and nothing about its date
  link makes it throw. In the entry of a row that does not throw, the date is \<open>null\<close>
  exactly when the row has no date link, or the non-empty segments of its address have
  no \<open>for\<close>, or fewer than 3 segments follow the first \<open>for\<close>; otherwise it is the
  Date object that the platform makes of \<open>year-month-day\<close>, valid or not: the source
  checks nothing about it. In the response body the date is \<open>null\<close> exactly when it
  is \<open>null\<close> or an Invalid Date in the entry.
\<close>

theorem watchDate_from_address:
  "(\<forall>e. diary_entry env r = Inl e \<longleftrightarrow> headline_text r = Inl e) \<and>
   (\<forall>m. diary_entry env r = Inr m \<longrightarrow>
       watchDate m =
         (case day_href r of
            None \<Rightarrow> None
          | Some href \<Rightarrow>
              (case from_for href of
                 f # y # mo # d # rest \<Rightarrow>
                   Some (Date_parse env (y @ str ''-'' @ mo @ str ''-'' @ d))
               | _ \<Rightarrow> None)) \<and>
       (json_watchDate (JSON_movie m) = None \<longleftrightarrow>
          watchDate m = None \<or> watchDate m = Some InvalidDate))"
proof (intro conjI allI impI)
  fix e
  show "diary_entry env r = Inl e \<longleftrightarrow> headline_text r = Inl e"
    by (rule diary_entry_Inl)
next
  fix m
  assume "diary_entry env r = Inr m"
  then show "watchDate m =
         (case day_href r of
            None \<Rightarrow> None
          | Some href \<Rightarrow>
              (case from_for href of
                 f # y # mo # d # rest \<Rightarrow>
                   Some (Date_parse env (y @ str ''-'' @ mo @ str ''-'' @ d))
               | _ \<Rightarrow> None))"
    by (simp add: diary_entry_Inr(3) watchDate_of_value)
next
  fix m
  have "Option.bind w JSON_date = None \<longleftrightarrow> w = None \<or> w = Some InvalidDate" for w
    by (cases w) (auto simp: JSON_date_def split: js_date.splits)
  then show "json_watchDate (JSON_movie m) = None \<longleftrightarrow>
          watchDate m = None \<or> watchDate m = Some InvalidDate"
    by (simp add: JSON_movie_def)
qed

text \<open>
  C3, the counterexample: the address \<open>.../for/2023/13/45/\<close> gives the entry a date
  that is present (not \<open>null\<close>) and is an Invalid Date. And where the platform
  lets a day run past the end of its month, as V8 does, \<open>.../for/2023/02/30/\<close> gives
  the valid date 2023-03-02, although there is no 30 February.
\<close>

theorem watchDate_invalid_is_present:
  "diary_entry sample_env
     ((sample_row ''X'')\<lparr>day_href := Some (str ''/bob/film/x/diary/for/2023/13/45/'')\<rparr>) =
   Inr \<lparr>filmId = None, title = str ''X'', posterUrl = None,
        watchDate = Some InvalidDate, rating = None, isLiked = False\<rparr> \<and>
   diary_entry sample_env
     ((sample_row ''X'')\<lparr>day_href := Some (str ''/bob/film/x/diary/for/2023/02/30/'')\<rparr>) =
   Inr \<lparr>filmId = None, title = str ''X'', posterUrl = None,
        watchDate = Some (ValidDate 1677715200000), rating = None, isLiked = False\<rparr> \<and>
   Date_parse_ISO (str ''2023-03-02'') = ValidDate 1677715200000"
  by code_simp

text \<open>
  C3, a witness: the segments \<open>for, 2023, 07, 15\<close> give 2023-07-15 (1689379200000 ms
  after the epoch), and two segments after the marker give \<open>null\<close>.
\<close>

theorem watchDate_from_address_witness:
  "from_for (str ''/bob/film/oppenheimer-2023/diary/for/2023/07/15/'') =
     [str ''for'', str ''2023'', str ''07'', str ''15''] \<and>
   map_sum id watchDate (diary_entry sample_env full_row) =
     Inr (Some (ValidDate 1689379200000)) \<and>
   from_for (str ''/bob/film/x/diary/for/2023/07/'') = [str ''for'', str ''2023'', str ''07''] \<and>
   map_sum id watchDate (diary_entry sample_env
      ((sample_row ''X'')\<lparr>day_href := Some (str ''/bob/film/x/diary/for/2023/07/'')\<rparr>)) =
     Inr None"
proof -
  have ff: "from_for (str ''/bob/film/oppenheimer-2023/diary/for/2023/07/15/'') =
             [str ''for'', str ''2023'', str ''07'', str ''15'']"
       "from_for (str ''/bob/film/x/diary/for/2023/07/'') = [str ''for'', str ''2023'', str ''07'']"
    by code_simp+
  have href: "day_href full_row = Some (str ''/bob/film/oppenheimer-2023/diary/for/2023/07/15/'')"
    by (simp add: full_row_def)
  have parse: "Date_parse sample_env (str ''2023'' @ str ''-'' @ str ''07'' @ str ''-'' @ str ''15'') =
                 ValidDate 1689379200000"
    by code_simp
  have 1: "map_sum id watchDate (diary_entry sample_env full_row) =
             Inr (Some (ValidDate 1689379200000))"
  proof (cases "diary_entry sample_env full_row")
    case (Inl e)
    with watchDate_from_address [of sample_env full_row] show ?thesis
      by (simp add: full_row_def)
  next
    case (Inr m)
    with watchDate_from_address [of sample_env full_row] show ?thesis
      by (simp add: href ff parse)
  qed
  let ?r = "(sample_row ''X'')\<lparr>day_href := Some (str ''/bob/film/x/diary/for/2023/07/'')\<rparr>"
  have 2: "map_sum id watchDate (diary_entry sample_env ?r) = Inr None"
  proof (cases "diary_entry sample_env ?r")
    case (Inl e)
    with watchDate_from_address [of sample_env ?r] show ?thesis
      by (simp add: sample_row_def)
  next
    case (Inr m)
    with watchDate_from_address [of sample_env ?r] show ?thesis
      by (simp add: ff)
  qed
  from ff 1 2 show ?thesis by simp
qed

section \<open>The rating\<close>

text \<open>\<open>digits_value\<close> reads what \<open>decimal\<close> writes.\<close>

lemma digit_value_of_nat:
  assumes "d < 10"
  shows "digit_value (of_nat (48 + d)) = int d"
proof -
  from assms consider "d = 0" | "d = 1" | "d = 2" | "d = 3" | "d = 4" | "d = 5" | "d = 6"
    | "d = 7" | "d = 8" | "d = 9"
    by atomize_elim arith
  then show ?thesis
    by cases (simp_all add: digit_value_def)
qed

lemma digits_value_snoc: "digits_value (Z @ [c]) = 10 * digits_value Z + digit_value c"
  by (simp add: digits_value_def)

lemma digits_value_decimal: "digits_value (decimal n) = int n"
proof (induction n rule: decimal.induct)
  case (1 n)
  show ?case
  proof (cases "n < 10")
    case True
    then have "decimal n = [of_nat (48 + n)]"
      by (subst decimal.simps) simp
    with True show ?thesis
      by (simp add: digits_value_def digit_value_of_nat del: of_nat_add)
  next
    case False
    with 1 have "digits_value (decimal (n div 10)) = int (n div 10)" by simp
    moreover from False have "decimal n = decimal (n div 10) @ [of_nat (48 + n mod 10)]"
      by (subst decimal.simps) simp
    moreover have "digit_value (of_nat (48 + n mod 10)) = int (n mod 10)"
      by (rule digit_value_of_nat) simp
    ultimately show ?thesis
      by (simp add: digits_value_snoc zdiv_int zmod_int del: of_nat_add)
  qed
qed

lemma sign_not_space: "\<not> is_StrWhiteSpaceChar 0x2B" "\<not> is_StrWhiteSpaceChar 0x2D"
  by (simp_all add: is_StrWhiteSpaceChar_def)

lemma trimStart_append:
  "list_all is_StrWhiteSpaceChar ws \<Longrightarrow> \<not> is_StrWhiteSpaceChar c \<Longrightarrow>
   trimStart (ws @ c # cs) = c # cs"
  by (simp add: trimStart_def list_all_iff dropWhile_append2)

lemma takeWhile_digits:
  "list_all is_digit Z \<Longrightarrow> (case t of [] \<Rightarrow> True | c # t' \<Rightarrow> \<not> is_digit c) \<Longrightarrow>
   takeWhile is_digit (Z @ t) = Z"
  by (cases t) (simp_all add: list_all_iff takeWhile_append2)

text \<open>
  Rounding: an integer below \<open>2 ^ 53\<close> is its own double, and the double of a longer
  integer is a multiple of its unit in the last place, at most half a unit away.
\<close>

lemma bit_length_le: "a < 2 ^ k \<Longrightarrow> bit_length a \<le> k"
proof (induction k arbitrary: a)
  case 0
  then show ?case by (simp add: bit_length.simps)
next
  case (Suc k)
  then have "a div 2 < 2 ^ k" by simp
  from Suc.IH [OF this] show ?case
    by (subst bit_length.simps) simp
qed

lemma round_to_double_exact: "a < 2 ^ 53 \<Longrightarrow> round_to_double a = Some a"
  by (simp add: round_to_double_def bit_length_le)

lemma if_Some_None: "(if c then Some x else None) = Some v \<Longrightarrow> v = x"
  by (simp split: if_splits)

lemma round_to_double_nearest:
  assumes "round_to_double a = Some v"
  shows "2 * \<bar>v - a\<bar> \<le> 2 ^ (bit_length a - 53) \<and> 2 ^ (bit_length a - 53) dvd v"
proof (cases "bit_length a \<le> 53")
  case True
  with assms show ?thesis by (simp add: round_to_double_def)
next
  case False
  define ulp :: int where "ulp = 2 ^ (bit_length a - 53)"
  define q where "q = a div ulp"
  define r where "r = a mod ulp"
  define q' where "q' = (if 2 * r < ulp then q else if ulp < 2 * r then q + 1
                         else if even q then q else q + 1)"
  have ulp: "0 < ulp"
    by (simp add: ulp_def)
  have a: "a = q * ulp + r"
    unfolding q_def r_def by (rule div_mult_mod_eq [symmetric])
  have r: "0 \<le> r" "r < ulp"
    using ulp by (simp_all add: r_def)
  from assms have "(if q' * ulp < 2 ^ 1024 then Some (q' * ulp) else None) = Some v"
    unfolding round_to_double_def Let_def q'_def q_def r_def ulp_def
    by (simp only: False if_False)
  then have v: "v = q' * ulp"
    by (rule if_Some_None)
  have "q' = q \<and> 2 * r \<le> ulp \<or> q' = q + 1 \<and> ulp \<le> 2 * r"
    by (auto simp: q'_def)
  then have "2 * \<bar>v - a\<bar> \<le> ulp \<and> ulp dvd v"
  proof
    assume "q' = q \<and> 2 * r \<le> ulp"
    with r show ?thesis by (simp add: a v)
  next
    assume "q' = q + 1 \<and> ulp \<le> 2 * r"
    with r show ?thesis by (simp add: a v algebra_simps)
  qed
  then show ?thesis by (simp add: ulp_def)
qed

lemma number_of_not_NaN: "number_of sign n \<noteq> NaN"
  by (simp add: number_of_def split: option.splits)

lemma number_of_exact:
  "0 < n \<Longrightarrow> n < 2 ^ 53 \<Longrightarrow> number_of sign n = Num (sign * n)"
  by (simp add: number_of_def round_to_double_exact)

lemma parseInt_leading_integer:
  assumes "leading_integer v ws sg Z t"
  shows "parseInt v = number_of (if sg = [0x2D] then - 1 else 1) (digits_value Z)"
proof -
  from assms obtain z Z' where Z: "Z = z # Z'" and z: "is_digit z"
    by (cases Z) (auto simp: leading_integer_def)
  from assms have v: "v = ws @ sg @ Z @ t" and ws: "list_all is_StrWhiteSpaceChar ws"
    and sg: "sg = [] \<or> sg = [0x2B] \<or> sg = [0x2D]"
    and tw: "takeWhile is_digit (Z @ t) = Z"
    by (auto simp: leading_integer_def intro: takeWhile_digits)
  from sg show ?thesis
  proof (elim disjE)
    assume "sg = []"
    moreover have "trimStart (ws @ z # Z' @ t) = z # Z' @ t"
      using ws z by (intro trimStart_append digit_not_space)
    ultimately show ?thesis
      using tw z digit_not_sign [OF z] by (simp add: parseInt_def v Z Let_def)
  next
    assume "sg = [0x2B]"
    moreover have "trimStart (ws @ 0x2B # Z @ t) = 0x2B # Z @ t"
      using ws by (intro trimStart_append sign_not_space)
    ultimately show ?thesis
      using tw by (simp add: parseInt_def v Z Let_def)
  next
    assume "sg = [0x2D]"
    moreover have "trimStart (ws @ 0x2D # Z @ t) = 0x2D # Z @ t"
      using ws by (intro trimStart_append sign_not_space)
    ultimately show ?thesis
      using tw by (simp add: parseInt_def v Z Let_def)
  qed
qed

lemma parseInt_NaN_iff:
  "parseInt v = NaN \<longleftrightarrow> (\<forall>ws sg Z t. \<not> leading_integer v ws sg Z t)"
proof
  assume nan: "parseInt v = NaN"
  show "\<forall>ws sg Z t. \<not> leading_integer v ws sg Z t"
  proof (intro allI notI)
    fix ws sg Z t
    assume "leading_integer v ws sg Z t"
    from parseInt_leading_integer [OF this] nan show False
      by (metis number_of_not_NaN)
  qed
next
  assume none: "\<forall>ws sg Z t. \<not> leading_integer v ws sg Z t"
  define S where "S = trimStart v"
  define sg where "sg = (case S of [] \<Rightarrow> [] | c # r \<Rightarrow> if c = 0x2B \<or> c = 0x2D then [c] else [])"
  define S' where "S' = (case S of [] \<Rightarrow> S | c # r \<Rightarrow> if c = 0x2B \<or> c = 0x2D then r else S)"
  define Z where "Z = takeWhile is_digit S'"
  have 1: "v = takeWhile is_StrWhiteSpaceChar v @ S"
    by (simp add: S_def trimStart_def)
  have 2: "S = sg @ S'"
    by (auto simp: sg_def S'_def split: list.splits)
  have 3: "S' = Z @ dropWhile is_digit S'"
    by (simp add: Z_def)
  have 4: "sg = [] \<or> sg = [0x2B] \<or> sg = [0x2D]"
    by (auto simp: sg_def split: list.splits)
  have 5: "case dropWhile is_digit S' of [] \<Rightarrow> True | c # t' \<Rightarrow> \<not> is_digit c"
  proof (cases "dropWhile is_digit S'")
    case Nil
    show ?thesis unfolding Nil by simp
  next
    case (Cons c t')
    with hd_dropWhile [of is_digit S'] show ?thesis by simp
  qed
  have "Z = []"
  proof (rule ccontr)
    assume "Z \<noteq> []"
    then have "leading_integer v (takeWhile is_StrWhiteSpaceChar v) sg Z (dropWhile is_digit S')"
      unfolding leading_integer_def using 1 2 3 4 5
      by (auto simp: list_all_iff Z_def dest: set_takeWhileD)
    with none show False by blast
  qed
  then show "parseInt v = NaN"
    unfolding parseInt_def Let_def Z_def S'_def S_def by simp
qed

text \<open>
  C4, as amended. The claim: the rating is the integer value of the value attribute,
  absent when the attribute is missing, and absent, with no failure, when the attribute
  is not numeric. In the source a row throws exactly when reading its title does, and
  nothing about its rating makes it throw. In the entry of a row that does not throw,
  the rating is \<open>null\<close> exactly when the attribute is missing; an attribute that
  starts with a decimal integer (after white space and an optional sign) gives the
  number of that integer, whatever follows the digits: the integer itself when it is
  not 0 and below \<open>2 ^ 53\<close>, in general the double nearest to it; every other
  attribute gives NaN, which the response body writes as \<open>null\<close>.
\<close>

theorem rating_extraction:
  "(\<forall>e. diary_entry env r = Inl e \<longleftrightarrow> headline_text r = Inl e) \<and>
   (\<forall>m. diary_entry env r = Inr m \<longrightarrow>
       (rating m = None \<longleftrightarrow> rateit_value r = None) \<and>
       (\<forall>v ws sg Z t. rateit_value r = Some v \<and> leading_integer v ws sg Z t \<longrightarrow>
          rating m = Some (number_of (if sg = [0x2D] then - 1 else 1) (digits_value Z)) \<and>
          (0 < digits_value Z \<and> digits_value Z < 2 ^ 53 \<longrightarrow>
             rating m = Some (Num ((if sg = [0x2D] then - 1 else 1) * digits_value Z)))) \<and>
       (\<forall>v. rateit_value r = Some v \<and> (\<forall>ws sg Z t. \<not> leading_integer v ws sg Z t) \<longrightarrow>
          rating m = Some NaN \<and> json_rating (JSON_movie m) = None))"
proof (intro conjI allI impI)
  fix e
  show "diary_entry env r = Inl e \<longleftrightarrow> headline_text r = Inl e"
    by (rule diary_entry_Inl)
next
  fix m
  assume "diary_entry env r = Inr m"
  then have rating: "rating m = rating_of r"
    by (rule diary_entry_Inr(4))
  show "rating m = None \<longleftrightarrow> rateit_value r = None"
    by (simp add: rating rating_of_def split: option.splits)
  {
    fix v ws sg Z t
    assume a: "rateit_value r = Some v \<and> leading_integer v ws sg Z t"
    then show number:
      "rating m = Some (number_of (if sg = [0x2D] then - 1 else 1) (digits_value Z))"
      using parseInt_leading_integer [of v ws sg Z t] by (simp add: rating rating_of_def)
    assume "0 < digits_value Z \<and> digits_value Z < 2 ^ 53"
    then have "number_of (if sg = [0x2D] then - 1 else 1) (digits_value Z) =
                 Num ((if sg = [0x2D] then - 1 else 1) * digits_value Z)"
      by (intro number_of_exact) (rule conjunct1, assumption, rule conjunct2, assumption)
    then show "rating m = Some (Num ((if sg = [0x2D] then - 1 else 1) * digits_value Z))"
      unfolding number by (rule arg_cong)
  }
  {
    fix v
    assume a: "rateit_value r = Some v \<and> (\<forall>ws sg Z t. \<not> leading_integer v ws sg Z t)"
    then show nan: "rating m = Some NaN"
      using parseInt_NaN_iff [of v] by (simp add: rating rating_of_def)
    then show "json_rating (JSON_movie m) = None"
      by (simp add: JSON_movie_def JSON_number_def)
  }
qed

text \<open>
  C4, the counterexample: the attribute \<open>8abc\<close> is not numeric (\<open>isNaN\<close> holds of
  it), and the rating is 8, not absent.
\<close>

theorem rating_of_non_numeric_prefix:
  "isNaN (str ''8abc'') \<and>
   diary_entry sample_env ((sample_row ''X'')\<lparr>rateit_value := Some (str ''8abc'')\<rparr>) =
   Inr \<lparr>filmId = None, title = str ''X'', posterUrl = None,
        watchDate = None, rating = Some (Num 8), isLiked = False\<rparr>"
  by code_simp

text \<open>
  C4, a witness: \<open>8\<close> gives the number 8, \<open>9007199254740993\<close> gives the double
  9007199254740992, \<open>abc\<close> gives NaN, no attribute gives \<open>null\<close>.
\<close>

theorem rating_extraction_witness:
  "rateit_value full_row = Some (str ''8'') \<and>
   leading_integer (str ''8'') [] [] (str ''8'') [] \<and>
   map_sum id rating (diary_entry sample_env full_row) = Inr (Some (Num 8)) \<and>
   leading_integer (str ''9007199254740993'') [] [] (str ''9007199254740993'') [] \<and>
   map_sum id rating
     (diary_entry sample_env
        ((sample_row ''X'')\<lparr>rateit_value := Some (str ''9007199254740993'')\<rparr>)) =
   Inr (Some (Num 9007199254740992)) \<and>
   (\<forall>ws sg Z t. \<not> leading_integer (str ''abc'') ws sg Z t) \<and>
   map_sum id rating
     (diary_entry sample_env ((sample_row ''X'')\<lparr>rateit_value := Some (str ''abc'')\<rparr>)) =
   Inr (Some NaN) \<and>
   map_sum id rating (diary_entry sample_env (sample_row ''X'')) = Inr None"
proof -
  have v: "rateit_value full_row = Some (str ''8'')"
    by (simp add: full_row_def)
  have li: "leading_integer (str ''8'') [] [] (str ''8'') []"
    "leading_integer (str ''9007199254740993'') [] [] (str ''9007199254740993'') []"
    by code_simp+
  have val: "digits_value (str ''8'') = 8"
    "number_of 1 (digits_value (str ''9007199254740993'')) = Num 9007199254740992"
    by code_simp+
  have "parseInt (str ''abc'') = NaN"
    by code_simp
  then have none: "\<forall>ws sg Z t. \<not> leading_integer (str ''abc'') ws sg Z t"
    by (simp add: parseInt_NaN_iff)
  have returns: "\<exists>m. diary_entry sample_env r = Inr m" if "headline_text r = Inr t" for r t
  proof (cases "diary_entry sample_env r")
    case (Inl e)
    with rating_extraction [of sample_env r, THEN conjunct1, rule_format, of e] that
    show ?thesis by simp
  next
    case (Inr m)
    then show ?thesis by simp
  qed
  note entry = rating_extraction [THEN conjunct2, rule_format]
  note absent = entry [THEN conjunct1]
  note number = entry [THEN conjunct2, THEN conjunct1, rule_format, THEN conjunct1]
  note exact = entry [THEN conjunct2, THEN conjunct1, rule_format, THEN conjunct2, rule_format]
  note nan = entry [THEN conjunct2, THEN conjunct2, rule_format, THEN conjunct1]
  have 1: "map_sum id rating (diary_entry sample_env full_row) = Inr (Some (Num 8))"
  proof -
    from returns [of full_row] obtain m where m: "diary_entry sample_env full_row = Inr m"
      by (auto simp: full_row_def)
    have "rateit_value full_row = Some (str ''8'') \<and>
          leading_integer (str ''8'') [] [] (str ''8'') []"
      using v li(1) by simp
    from exact [OF m this]
    have "rating m =
            Some (Num ((if ([]::jsstring) = [0x2D] then - 1 else 1) * digits_value (str ''8'')))"
      by (simp add: val(1))
    with m show ?thesis by (simp add: val(1))
  qed
  let ?big = "(sample_row ''X'')\<lparr>rateit_value := Some (str ''9007199254740993'')\<rparr>"
  have 2: "map_sum id rating (diary_entry sample_env ?big) = Inr (Some (Num 9007199254740992))"
  proof -
    from returns [of ?big] obtain m where m: "diary_entry sample_env ?big = Inr m"
      by (auto simp: sample_row_def)
    have "rateit_value ?big = Some (str ''9007199254740993'') \<and>
          leading_integer (str ''9007199254740993'') [] [] (str ''9007199254740993'') []"
      using li(2) by simp
    from number [OF m this]
    have "rating m =
            Some (number_of (if ([]::jsstring) = [0x2D] then - 1 else 1)
                    (digits_value (str ''9007199254740993'')))" .
    with m show ?thesis by (simp add: val(2))
  qed
  let ?abc = "(sample_row ''X'')\<lparr>rateit_value := Some (str ''abc'')\<rparr>"
  have 3: "map_sum id rating (diary_entry sample_env ?abc) = Inr (Some NaN)"
  proof -
    from returns [of ?abc] obtain m where m: "diary_entry sample_env ?abc = Inr m"
      by (auto simp: sample_row_def)
    have "rateit_value ?abc = Some (str ''abc'') \<and>
          (\<forall>ws sg Z t. \<not> leading_integer (str ''abc'') ws sg Z t)"
      using none by simp
    from nan [OF m this] have "rating m = Some NaN" .
    with m show ?thesis by simp
  qed
  have 4: "map_sum id rating (diary_entry sample_env (sample_row ''X'')) = Inr None"
  proof -
    from returns [of "sample_row ''X''"] obtain m
      where m: "diary_entry sample_env (sample_row ''X'') = Inr m"
      by (auto simp: sample_row_def)
    from absent [OF m] have "rating m = None"
      by (simp add: sample_row_def)
    with m show ?thesis by simp
  qed
  from v li none 1 2 3 4 show ?thesis by simp
qed

section \<open>When the parser throws\<close>

lemma getUserDataFromHtml_value:
  "getUserDataFromHtml env html =
     (case title_text (cheerio_load env html) of
        Inl e \<Rightarrow> Inl e
      | Inr t \<Rightarrow>
          Inr \<lparr>name = drop 1 (trim (hd (split (trim t) 0x2019))),
               profilePicUrl =
                 (case avatar_src (cheerio_load env html) of
                    None \<Rightarrow> None
                  | Some p \<Rightarrow>
                      if p \<noteq> [] \<and> includes_str p (str ''-0-48-0-48-crop'')
                      then Some (replace p (str ''-0-48-0-48-crop'') (str ''-0-220-0-220-crop''))
                      else None)\<rparr>)"
proof (cases "title_text (cheerio_load env html)")
  case (Inl e)
  then show ?thesis by (simp add: getUserDataFromHtml_def)
next
  case (Inr t)
  with split_not_Nil [of "trim t" "0x2019"] show ?thesis
    by (auto simp: getUserDataFromHtml_def at_0 Let_def split: list.splits)
qed

lemma getUserDataFromHtml_Inl:
  "getUserDataFromHtml env html = Inl e \<longleftrightarrow> title_text (cheerio_load env html) = Inl e"
  by (simp add: getUserDataFromHtml_value split: sum.splits)

lemma split_Nil: "split [] sep = [[]]"
  by (simp add: split_def)

lemma diary_entry_defaults:
  assumes "diary_entry env r = Inr m"
  shows "defaults_to_absent r m"
proof -
  from diary_entry_Inr(6) [OF assms] have "headline_text r = Inr [] \<longrightarrow> title m = []"
    by auto
  then show ?thesis
    unfolding defaults_to_absent_def
    by (auto simp: diary_entry_Inr(1-5) [OF assms] filmId_of_value filmSlug_of_value
        posterUrl_of_def watchDate_of_def rating_of_def)
qed

lemma getMovieDataFromHtml_returns:
  assumes "\<forall>r \<in> set (diary_rows (cheerio_load env html)). \<exists>t. headline_text r = Inr t"
  shows "\<exists>ms. getMovieDataFromHtml env html = Inr ms \<and>
              list_all2 defaults_to_absent (diary_rows (cheerio_load env html)) ms"
proof (cases "getMovieDataFromHtml env html")
  case (Inl e)
  from getMovieDataFromHtml_Inl [OF this] assms show ?thesis by auto
next
  case (Inr ms)
  then have "list_all2 (\<lambda>r m. diary_entry env r = Inr m) (diary_rows (cheerio_load env html)) ms"
    by (simp add: getMovieDataFromHtml_Inr)
  then have "list_all2 defaults_to_absent (diary_rows (cheerio_load env html)) ms"
    by (rule list_all2_mono) (rule diary_entry_defaults)
  with Inr show ?thesis by simp
qed

text \<open>
  C9, as amended. The claim: each of the three parsing functions returns for every
  markup, and an extraction that matches nothing gives an absent or empty field. In the
  source the page count always returns, and is the number of pagination items. The
  other two read text with \<open>text()\<close>, which throws on an element nested too deeply:
  the identity throws exactly when reading the title does, and the entries throw only
  with the error of reading the title of some row. When the title is read, the name is
  empty if the title is and the picture is \<open>null\<close> if there is no avatar; when the
  title of every row is read, every row gives an entry in which each field whose
  extraction finds nothing is \<open>null\<close>, empty or false.
\<close>

theorem page_parser_throws_only_from_text:
  "(\<exists>n. getPageCountFromHtml env html = Inr n \<and>
        n = paginate_pages (cheerio_load env html)) \<and>
   (\<forall>e. getUserDataFromHtml env html = Inl e \<longleftrightarrow>
        title_text (cheerio_load env html) = Inl e) \<and>
   (\<forall>t. title_text (cheerio_load env html) = Inr t \<longrightarrow>
        (\<exists>u. getUserDataFromHtml env html = Inr u \<and>
             (t = [] \<longrightarrow> name u = []) \<and>
             (avatar_src (cheerio_load env html) = None \<longrightarrow> profilePicUrl u = None))) \<and>
   (\<forall>e. getMovieDataFromHtml env html = Inl e \<longrightarrow>
        (\<exists>r \<in> set (diary_rows (cheerio_load env html)). headline_text r = Inl e)) \<and>
   ((\<forall>r \<in> set (diary_rows (cheerio_load env html)). \<exists>t. headline_text r = Inr t) \<longrightarrow>
    (\<exists>ms. getMovieDataFromHtml env html = Inr ms \<and>
          list_all2 defaults_to_absent (diary_rows (cheerio_load env html)) ms))"
proof (intro conjI allI impI)
  show "\<exists>n. getPageCountFromHtml env html = Inr n \<and>
            n = paginate_pages (cheerio_load env html)"
    by (simp add: getPageCountFromHtml_def)
next
  fix e
  show "getUserDataFromHtml env html = Inl e \<longleftrightarrow> title_text (cheerio_load env html) = Inl e"
    by (rule getUserDataFromHtml_Inl)
next
  fix t
  assume "title_text (cheerio_load env html) = Inr t"
  then show "\<exists>u. getUserDataFromHtml env html = Inr u \<and>
             (t = [] \<longrightarrow> name u = []) \<and>
             (avatar_src (cheerio_load env html) = None \<longrightarrow> profilePicUrl u = None)"
    by (simp add: getUserDataFromHtml_value split_Nil)
next
  fix e
  assume "getMovieDataFromHtml env html = Inl e"
  then show "\<exists>r \<in> set (diary_rows (cheerio_load env html)). headline_text r = Inl e"
    by (rule getMovieDataFromHtml_Inl)
next
  assume "\<forall>r \<in> set (diary_rows (cheerio_load env html)). \<exists>t. headline_text r = Inr t"
  then show "\<exists>ms. getMovieDataFromHtml env html = Inr ms \<and>
          list_all2 defaults_to_absent (diary_rows (cheerio_load env html)) ms"
    by (rule getMovieDataFromHtml_returns)
qed

text \<open>
  C9, the counterexample: on a page whose title is nested too deeply the identity
  throws, and on a page with such a row the entries throw.
\<close>

theorem page_parser_throws_on_deep_markup:
  "getUserDataFromHtml sample_env (str ''deep title'') = Inl stack_overflow \<and>
   getMovieDataFromHtml sample_env (str ''deep row'') = Inl stack_overflow"
  by code_simp

text \<open>
  C9, a witness: a page with no title, no avatar and two rows that hold a title only,
  and a page whose title cannot be read.
\<close>

theorem page_parser_throws_only_from_text_witness:
  "title_text (cheerio_load sample_env (str ''page 2'')) = Inr [] \<and>
   avatar_src (cheerio_load sample_env (str ''page 2'')) = None \<and>
   diary_rows (cheerio_load sample_env (str ''page 2'')) = [sample_row ''C'', sample_row ''D''] \<and>
   headline_text (sample_row ''C'') = Inr (str ''C'') \<and>
   headline_text (sample_row ''D'') = Inr (str ''D'') \<and>
   getPageCountFromHtml sample_env (str ''page 2'') = Inr 0 \<and>
   getUserDataFromHtml sample_env (str ''page 2'') = Inr \<lparr>name = [], profilePicUrl = None\<rparr> \<and>
   (\<exists>ms. getMovieDataFromHtml sample_env (str ''page 2'') = Inr ms \<and>
         list_all2 defaults_to_absent [sample_row ''C'', sample_row ''D''] ms) \<and>
   title_text (cheerio_load sample_env (str ''deep title'')) = Inl stack_overflow \<and>
   getUserDataFromHtml sample_env (str ''deep title'') = Inl stack_overflow"
proof -
  have doc: "title_text (cheerio_load sample_env (str ''page 2'')) = Inr []"
    "avatar_src (cheerio_load sample_env (str ''page 2'')) = None"
    "diary_rows (cheerio_load sample_env (str ''page 2'')) = [sample_row ''C'', sample_row ''D'']"
    "paginate_pages (cheerio_load sample_env (str ''page 2'')) = 0"
    by code_simp+
  have rows: "headline_text (sample_row ''C'') = Inr (str ''C'')"
    "headline_text (sample_row ''D'') = Inr (str ''D'')"
    by (simp_all add: sample_row_def)
  have deep: "title_text (cheerio_load sample_env (str ''deep title'')) = Inl stack_overflow"
    by code_simp
  note all = page_parser_throws_only_from_text [of sample_env "str ''page 2''"]
  from all have count: "getPageCountFromHtml sample_env (str ''page 2'') = Inr 0"
    by (simp add: doc)
  from all [THEN conjunct2, THEN conjunct2, THEN conjunct1, rule_format, OF doc(1)]
  have user: "getUserDataFromHtml sample_env (str ''page 2'') =
                Inr \<lparr>name = [], profilePicUrl = None\<rparr>"
    by (auto simp: doc)
  have "\<forall>r \<in> set (diary_rows (cheerio_load sample_env (str ''page 2''))).
          \<exists>t. headline_text r = Inr t"
    by (simp add: doc rows)
  with all have movies: "\<exists>ms. getMovieDataFromHtml sample_env (str ''page 2'') = Inr ms \<and>
         list_all2 defaults_to_absent [sample_row ''C'', sample_row ''D''] ms"
    unfolding doc(3) by blast
  from page_parser_throws_only_from_text [of sample_env "str ''deep title''"] deep
  have thrown: "getUserDataFromHtml sample_env (str ''deep title'') = Inl stack_overflow"
    by blast
  from doc(1-3) rows count user movies deep thrown show ?thesis
    by (intro conjI)
qed

section \<open>\<open>Promise.all\<close>\<close>

lemma those_eq_Some: "those xs = Some ys \<longleftrightarrow> xs = map Some ys"
  by (induction xs arbitrary: ys) (auto split: option.splits)

lemma those_eq_None: "those xs = None \<longleftrightarrow> None \<in> set xs"
  by (induction xs) (auto split: option.splits)

lemma settle_settled [simp]:
  "settle outcomes (Fulfilled vs) i = Fulfilled vs"
  "settle outcomes (RejectedWith e) i = RejectedWith e"
  by (simp_all add: settle_def)

lemma settle_sound:
  assumes "promise_sound outcomes p"
  shows "promise_sound outcomes (settle outcomes p i)"
proof (cases p)
  case (Pending vals)
  with assms have len: "length vals = length outcomes"
    and val: "\<And>j v. j < length outcomes \<Longrightarrow> vals ! j = Some v \<Longrightarrow> outcomes ! j = Inr v"
    by (auto simp: promise_sound_def)
  show ?thesis
  proof (cases "i < length outcomes")
    case False
    with Pending assms show ?thesis by (simp add: settle_def)
  next
    case True
    show ?thesis
    proof (cases "outcomes ! i")
      case (Inl e)
      with True Pending show ?thesis
        by (auto simp: settle_def promise_sound_def in_set_conv_nth)
    next
      case (Inr v)
      have val': "outcomes ! j = Inr w"
        if "j < length outcomes" "vals[i := Some v] ! j = Some w" for j w
        using that val [of j w] Inr len by (cases "j = i") auto
      show ?thesis
      proof (cases "those (vals[i := Some v])")
        case None
        with True Pending Inr len val' show ?thesis
          by (auto simp: settle_def promise_sound_def)
      next
        case (Some vs)
        then have vs: "vals[i := Some v] = map Some vs"
          by (simp add: those_eq_Some)
        then have "length vs = length outcomes"
          using len by (metis length_list_update length_map)
        moreover have "outcomes ! j = Inr (vs ! j)" if "j < length outcomes" for j
          using that val' [of j "vs ! j"] vs \<open>length vs = length outcomes\<close> by simp
        ultimately have "outcomes = map Inr vs"
          by (intro nth_equalityI) simp_all
        with True Pending Inr Some show ?thesis
          by (simp add: settle_def promise_sound_def)
      qed
    qed
  qed
next
  case (Fulfilled vs)
  with assms show ?thesis by simp
next
  case (RejectedWith e)
  with assms show ?thesis by simp
qed

lemma settle_filled:
  assumes "promise_filled outcomes S p"
  shows "promise_filled outcomes (insert i S) (settle outcomes p i)"
proof (cases p)
  case (Pending vals)
  with assms have len: "length vals = length outcomes" and none: "those vals = None"
    and fill: "\<And>j. j \<in> S \<Longrightarrow> j < length outcomes \<Longrightarrow> vals ! j \<noteq> None"
    by (auto simp: promise_filled_def)
  show ?thesis
  proof (cases "i < length outcomes")
    case False
    with Pending len none fill show ?thesis
      by (auto simp: settle_def promise_filled_def)
  next
    case True
    have fill': "vals[i := Some v] ! j \<noteq> None"
      if "j \<in> insert i S" "j < length outcomes" for j v
      using that fill [of j] len by (cases "j = i") auto
    show ?thesis
    proof (cases "outcomes ! i")
      case (Inl e)
      with True Pending show ?thesis by (simp add: settle_def promise_filled_def)
    next
      case (Inr v)
      show ?thesis
      proof (cases "those (vals[i := Some v])")
        case None
        with True Pending Inr len fill' [of _ v] show ?thesis
          by (simp add: settle_def promise_filled_def)
      next
        case (Some vs)
        with True Pending Inr show ?thesis by (simp add: settle_def promise_filled_def)
      qed
    qed
  qed
next
  case (Fulfilled vs)
  then show ?thesis by (simp add: promise_filled_def)
next
  case (RejectedWith e)
  then show ?thesis by (simp add: promise_filled_def)
qed

lemma foldl_settle_sound:
  "promise_sound outcomes p \<Longrightarrow> promise_sound outcomes (foldl (settle outcomes) p order)"
  by (induction order arbitrary: p) (simp_all add: settle_sound)

lemma foldl_settle_filled:
  "promise_filled outcomes S p \<Longrightarrow>
   promise_filled outcomes (S \<union> set order) (foldl (settle outcomes) p order)"
proof (induction order arbitrary: p S)
  case Nil
  then show ?case by simp
next
  case (Cons i order)
  from Cons.IH [OF settle_filled [OF Cons.prems, of i]] show ?case by simp
qed

lemma Promise_all_sound: "promise_sound outcomes (Promise_all outcomes order)"
proof (cases "outcomes = []")
  case True
  then show ?thesis by (simp add: Promise_all_def promise_sound_def)
next
  case False
  have "promise_sound outcomes (Pending (replicate (length outcomes) None))"
    by (simp add: promise_sound_def)
  from foldl_settle_sound [OF this, of order] False show ?thesis
    by (simp add: Promise_all_def)
qed

lemma Promise_all_filled: "promise_filled outcomes (set order) (Promise_all outcomes order)"
proof (cases "outcomes = []")
  case True
  then show ?thesis by (simp add: Promise_all_def promise_filled_def)
next
  case False
  then have "promise_filled outcomes {} (Pending (replicate (length outcomes) None))"
    by (simp add: promise_filled_def those_eq_None)
  from foldl_settle_filled [OF this, of order] False show ?thesis
    by (simp add: Promise_all_def)
qed

lemma Promise_all_not_pending:
  assumes "{0..<length outcomes} \<subseteq> set order"
  shows "Promise_all outcomes order \<noteq> Pending vals"
proof
  assume p: "Promise_all outcomes order = Pending vals"
  with Promise_all_filled [of outcomes order]
  have len: "length vals = length outcomes" and none: "None \<in> set vals"
    and fill: "\<And>j. j \<in> set order \<Longrightarrow> j < length outcomes \<Longrightarrow> vals ! j \<noteq> None"
    by (auto simp: promise_filled_def those_eq_None)
  from none obtain j where "j < length vals" "vals ! j = None"
    by (auto simp: in_set_conv_nth)
  with fill [of j] len assms show False by auto
qed

lemma Promise_all_fulfilled:
  assumes "{0..<length vs} \<subseteq> set order"
  shows "Promise_all (map Inr vs) order = Fulfilled vs"
proof (cases "Promise_all (map Inr vs) order")
  case (Pending vals)
  with Promise_all_not_pending [of "map Inr vs" order vals] assms show ?thesis by simp
next
  case (Fulfilled vs')
  with Promise_all_sound [of "map Inr vs" order] have "map Inr vs = map Inr vs'"
    by (simp add: promise_sound_def)
  then have "vs = vs'" by (simp add: inj_map_eq_map)
  with Fulfilled show ?thesis by simp
next
  case (RejectedWith e)
  with Promise_all_sound [of "map Inr vs" order] show ?thesis
    by (auto simp: promise_sound_def)
qed



section \<open>The handler\<close>

lemma startsWith_iff: "startsWith s p \<longleftrightarrow> (\<exists>rest. s = p @ rest)"
  by (induction s p rule: startsWith.induct) auto

lemma pageUrls_of_pageUrl: "pageUrls_of u n = map (pageUrl u) [2..<Suc n]"
  by (simp add: pageUrls_of_def pageUrl_def)

lemma page_task_transport:
  "page_task env a = and_then (transport env a) (getMovieDataFromHtml env)"
  by (cases "fetch env a") (simp_all add: page_task_def transport_def)


lemma page_entries_task:
  "page_entries env a = (case page_task env a of Inl e \<Rightarrow> [] | Inr ms \<Rightarrow> ms)"
  by (simp add: page_entries_def page_task_transport)



text \<open>The handler on a request for an address of the allowed origin.\<close>

lemma handler_request:
  assumes "startsWith u (str ''https://letterboxd.com/'')"
  shows "handler env order (request u) =
     (case transport env u of
        Inl e \<Rightarrow> (Some (failure e), [u])
      | Inr html1 \<Rightarrow>
          (case getUserDataFromHtml env html1 of
             Inl e \<Rightarrow> (Some (failure e), [u])
           | Inr ud \<Rightarrow>
               (case getMovieDataFromHtml env html1 of
                  Inl e \<Rightarrow> (Some (failure e), [u])
                | Inr movies \<Rightarrow>
          (case Promise_all
                  (map (page_task env) (pageUrls_of u (paginate_pages (cheerio_load env html1))))
                  order of
             Pending vals \<Rightarrow>
               (None, u # pageUrls_of u (paginate_pages (cheerio_load env html1)))
           | RejectedWith e \<Rightarrow>
               (Some (failure e), u # pageUrls_of u (paginate_pages (cheerio_load env html1)))
           | Fulfilled paginatedMovies \<Rightarrow>
               (Some \<lparr>statusCode = status (projr (fetch env u)),
                      headers = success_headers,
                      body = DataBody
                        (map JSON_movie (movies @ concat paginatedMovies))
                        (name ud) (profilePicUrl ud)\<rparr>,
                u # pageUrls_of u (paginate_pages (cheerio_load env html1)))))))"
proof -
  from assms have u: "u \<noteq> []"
    by (auto simp: str_def)
  have h: "handler env order (request u) =
     (case try_block env order u of
        (None, fetched) \<Rightarrow> (None, fetched)
      | (Some (Inr result), fetched) \<Rightarrow> (Some result, fetched)
      | (Some (Inl e), fetched) \<Rightarrow> (Some (failure e), fetched))"
    using assms u
    by (auto simp: handler_def request_def failure_def
        split: prod.splits option.splits sum.splits)
  show ?thesis
  proof (cases "fetch env u")
    case (Inl e)
    then show ?thesis by (simp add: h try_block_def transport_def)
  next
    case (Inr res1)
    show ?thesis
    proof (cases "text_of res1")
      case (Inl e)
      with Inr show ?thesis by (simp add: h try_block_def transport_def)
    next
      case html: (Inr html1)
      show ?thesis
      proof (cases "getUserDataFromHtml env html1")
        case (Inl e)
        with Inr html show ?thesis
          by (simp add: h try_block_def transport_def getPageCountFromHtml_def)
      next
        case user: (Inr ud)
        show ?thesis
        proof (cases "getMovieDataFromHtml env html1")
          case (Inl e)
          with Inr html user show ?thesis
            by (simp add: h try_block_def transport_def getPageCountFromHtml_def)
        next
          case movies: (Inr ms)
          with Inr html user show ?thesis
            by (simp add: h try_block_def transport_def getPageCountFromHtml_def Let_def
                split: promise.splits)
        qed
      qed
    qed
  qed
qed

text \<open>When every page is fetched, read and parsed and every fetch settles.\<close>

lemma handler_all_pages:
  assumes valid: "startsWith u (str ''https://letterboxd.com/'')"
    and first: "fetch env u = Inr res1" "text_of res1 = Inr html1"
    and count: "getPageCountFromHtml env html1 = Inr n"
    and user: "getUserDataFromHtml env html1 = Inr ud"
    and movies: "getMovieDataFromHtml env html1 = Inr ms1"
    and later: "\<forall>k \<in> {2..n}. \<exists>ms. page_task env (pageUrl u k) = Inr ms"
    and order: "completion_order (n - 1) order"
  shows "handler env order (request u) =
     (Some \<lparr>statusCode = status res1, headers = success_headers,
            body = DataBody
              (map JSON_movie
                 (ms1 @ concat (map (\<lambda>k. page_entries env (pageUrl u k)) [2..<Suc n])))
              (name ud) (profilePicUrl ud)\<rparr>,
      u # map (pageUrl u) [2..<Suc n])"
proof -
  let ?pages = "map (\<lambda>k. page_entries env (pageUrl u k)) [2..<Suc n]"
  from count have n: "paginate_pages (cheerio_load env html1) = n"
    by (simp add: getPageCountFromHtml_def)
  have t: "transport env u = Inr html1"
    using first by (simp add: transport_def)
  have "page_task env (pageUrl u k) = Inr (page_entries env (pageUrl u k))"
    if "k \<in> set [2..<Suc n]" for k
  proof -
    from that have "k \<in> {2..n}" by auto
    with later obtain ms where "page_task env (pageUrl u k) = Inr ms" by blast
    then show ?thesis by (simp add: page_entries_task)
  qed
  then have tasks: "map (page_task env) (pageUrls_of u n) = map Inr ?pages"
    by (simp add: pageUrls_of_pageUrl)
  have "length ?pages = n - 1"
    by (simp del: upt_Suc)
  then have "{0..<length ?pages} \<subseteq> set order"
    using order by (simp only: completion_order_def)
  then have all: "Promise_all (map Inr ?pages) order = Fulfilled ?pages"
    by (rule Promise_all_fulfilled)
  note handler_request [OF valid, of env order,
      unfolded t sum.case user movies n tasks all promise.case]
  then show ?thesis
    by (simp add: first pageUrls_of_pageUrl del: upt_Suc)
qed

lemma first_page_entries:
  "transport env u = Inr html1 \<Longrightarrow> getMovieDataFromHtml env html1 = Inr ms1 \<Longrightarrow>
   page_entries env u = ms1"
  by (simp add: page_entries_def)

section \<open>Claims about the handler\<close>

lemma sample_url_valid: "startsWith sample_url (str ''https://letterboxd.com/'')"
  by code_simp

lemma sample_first_page:
  "fetch sample_env sample_url = Inr \<lparr>status = 200, text_of = Inr (str ''page 1'')\<rparr>"
  "getPageCountFromHtml sample_env (str ''page 1'') = Inr 3"
  "getUserDataFromHtml sample_env (str ''page 1'') =
     Inr \<lparr>name = str ''Bob'',
          profilePicUrl = Some (str ''https://a.ltrbxd.com/avatar/bob-0-220-0-220-crop.jpg'')\<rparr>"
  by code_simp+

lemma sample_first_page_entries:
  "getMovieDataFromHtml sample_env (str ''page 1'') = Inr (page_entries sample_env sample_url)"
  by code_simp

lemma sample_later_pages:
  "page_task sample_env (pageUrl sample_url 2) =
     Inr (page_entries sample_env (pageUrl sample_url 2))"
  "page_task sample_env (pageUrl sample_url 3) =
     Inr (page_entries sample_env (pageUrl sample_url 3))"
  by code_simp+

lemma sample_entries:
  "map title (page_entries sample_env sample_url) = [str ''A'', str ''B'']"
  "map title (page_entries sample_env (pageUrl sample_url 2)) = [str ''C'', str ''D'']"
  "map title (page_entries sample_env (pageUrl sample_url 3)) = [str ''E'', str ''F'']"
  by code_simp+

lemma page2_down_pages:
  "fetch page2_down sample_url = Inr \<lparr>status = 200, text_of = Inr (str ''page 1'')\<rparr>"
  "transport page2_down sample_url = Inr (str ''page 1'')"
  "getPageCountFromHtml page2_down (str ''page 1'') = Inr 3"
  "transport page2_down (pageUrl sample_url 2) = Inl (FetchError (str ''TypeError: fetch failed''))"
  "map (page_task page2_down) (pageUrls_of sample_url 3) =
     [Inl (FetchError (str ''TypeError: fetch failed'')),
      Inr (page_entries page2_down (pageUrl sample_url 3))]"
  "getUserDataFromHtml page2_down (str ''page 1'') =
     Inr \<lparr>name = str ''Bob'',
          profilePicUrl = Some (str ''https://a.ltrbxd.com/avatar/bob-0-220-0-220-crop.jpg'')\<rparr>"
  "getMovieDataFromHtml page2_down (str ''page 1'') = Inr (page_entries page2_down sample_url)"
  by code_simp+

lemma nobody_page:
  "startsWith (str ''https://letterboxd.com/nobody/films/diary/'') (str ''https://letterboxd.com/'')"
  "fetch sample_env (str ''https://letterboxd.com/nobody/films/diary/'') =
     Inr \<lparr>status = 404, text_of = Inr (str ''not found'')\<rparr>"
  "getPageCountFromHtml sample_env (str ''not found'') = Inr 0"
  "getUserDataFromHtml sample_env (str ''not found'') = Inr \<lparr>name = [], profilePicUrl = None\<rparr>"
  "getMovieDataFromHtml sample_env (str ''not found'') = Inr []"
  by code_simp+

lemma deep_page:
  "startsWith (str ''https://letterboxd.com/deep/films/diary/'') (str ''https://letterboxd.com/'')"
  "fetch sample_env (str ''https://letterboxd.com/deep/films/diary/'') =
     Inr \<lparr>status = 200, text_of = Inr (str ''deep row'')\<rparr>"
  "transport sample_env (str ''https://letterboxd.com/deep/films/diary/'') = Inr (str ''deep row'')"
  "getUserDataFromHtml sample_env (str ''deep row'') = Inr \<lparr>name = [], profilePicUrl = None\<rparr>"
  "getMovieDataFromHtml sample_env (str ''deep row'') = Inl stack_overflow"
  by code_simp+

lemma order_1_0: "completion_order 2 [1, 0]"
  by (auto simp: completion_order_def)

text \<open>
  C6. For a successful run on a request of the allowed origin, that is, when page 1 and
  every page 2 to \<open>n\<close> are fetched, read and parsed, the entries of the response are
  those of page 1 followed by those of pages 2, 3, ..., \<open>n\<close> in this order, whatever
  the order in which the fetches of the later pages complete.
\<close>

theorem merge_in_page_order:
  assumes "\<exists>rest. u = str ''https://letterboxd.com/'' @ rest"
    and "transport env u = Inr html1"
    and "getPageCountFromHtml env html1 = Inr n"
    and "getUserDataFromHtml env html1 = Inr ud"
    and "getMovieDataFromHtml env html1 = Inr ms1"
    and "\<forall>k \<in> {2..n}. \<exists>ms. page_task env (pageUrl u k) = Inr ms"
    and "completion_order (n - 1) order"
  shows "\<exists>r nm pic. fst (handler env order (request u)) = Some r \<and>
           body r =
             DataBody
               (map JSON_movie
                  (page_entries env u @
                   concat (map (\<lambda>k. page_entries env (pageUrl u k)) [2..<Suc n])))
               nm pic"
proof -
  from assms(1) have valid: "startsWith u (str ''https://letterboxd.com/'')"
    by (simp add: startsWith_iff)
  from assms(2) obtain res1 where first: "fetch env u = Inr res1" "text_of res1 = Inr html1"
    by (cases "fetch env u") (auto simp: transport_def)
  have entries: "page_entries env u = ms1"
    using assms(2) assms(5) by (rule first_page_entries)
  show ?thesis
    unfolding handler_all_pages [OF valid first assms(3) assms(4) assms(5) assms(6) assms(7)]
      entries
    by simp
qed

text \<open>
  C6, a witness: page 1 holds A and B, page 2 holds C and D, page 3 holds E and F, and
  the fetch of page 3 completes before that of page 2.
\<close>

theorem merge_in_page_order_witness:
  "completion_order 2 [1, 0] \<and>
   (\<exists>r js nm pic. fst (handler sample_env [1, 0] (request sample_url)) = Some r \<and>
      body r = DataBody js nm pic \<and>
      map json_title js = [str ''A'', str ''B'', str ''C'', str ''D'', str ''E'', str ''F''])"
proof -
  have valid: "\<exists>rest. sample_url = str ''https://letterboxd.com/'' @ rest"
    using sample_url_valid by (simp add: startsWith_iff)
  have first: "transport sample_env sample_url = Inr (str ''page 1'')"
    by (simp add: transport_def sample_first_page)
  have later: "\<forall>k \<in> {2..3}. \<exists>ms. page_task sample_env (pageUrl sample_url k) = Inr ms"
  proof
    fix k :: nat
    assume "k \<in> {2..3}"
    then have "k = 2 \<or> k = 3" by auto
    then show "\<exists>ms. page_task sample_env (pageUrl sample_url k) = Inr ms"
      using sample_later_pages by auto
  qed
  have pages: "[2..<Suc 3] = [2, 3]"
    by code_simp
  have titles: "json_title \<circ> JSON_movie = title"
    by (auto simp: JSON_movie_def)
  from merge_in_page_order [OF valid first sample_first_page(2) sample_first_page(3)
      sample_first_page_entries later, of "[1, 0]"] order_1_0
  show ?thesis
    by (auto simp: pages titles sample_entries simp del: upt_Suc)
qed

text \<open>
  C7. An address that does not start with \<open>https://letterboxd.com/\<close> is answered with
  an error response of status 400, and no address is fetched.
\<close>

theorem invalid_origin_no_fetch:
  assumes "\<not> (\<exists>rest. u = str ''https://letterboxd.com/'' @ rest)"
  shows "handler env order (request u) =
           (Some \<lparr>statusCode = 400, headers = [],
                  body = ErrorBody (if u = [] then str ''No URL provided''
                                    else str ''Invalid URL'')\<rparr>,
            [])"
  using assms by (simp add: handler_def request_def bad_request_def startsWith_iff)

text \<open>
  C7, a witness: \<open>https://example.com/evil\<close>.
\<close>

theorem invalid_origin_no_fetch_witness:
  "\<not> (\<exists>rest. str ''https://example.com/evil'' = str ''https://letterboxd.com/'' @ rest) \<and>
   handler sample_env [] (request (str ''https://example.com/evil'')) =
     (Some \<lparr>statusCode = 400, headers = [], body = ErrorBody (str ''Invalid URL'')\<rparr>, [])"
proof -
  have "\<not> startsWith (str ''https://example.com/evil'') (str ''https://letterboxd.com/'')"
    by code_simp
  then have other: "\<not> (\<exists>rest. str ''https://example.com/evil'' =
                                str ''https://letterboxd.com/'' @ rest)"
    by (simp add: startsWith_iff)
  have "str ''https://example.com/evil'' \<noteq> []"
    by (simp add: str_def)
  with invalid_origin_no_fetch [OF other, of sample_env "[]"] other show ?thesis
    by simp
qed





text \<open>
  C10, as amended. The claim: when the fetch of page 1 settles without an error, the
  status code of the response is the status of page 1, whatever it is, and the body
  carries the parsed result. This needs the body of page 1 to be read and parsed, and
  every later page to be fetched, read and parsed as well: then the response has the
  status of page 1, the entries of all pages and the identity read from page 1.
\<close>

theorem status_of_first_page:
  assumes "\<exists>rest. u = str ''https://letterboxd.com/'' @ rest"
    and "fetch env u = Inr res1" and "text_of res1 = Inr html1"
    and "getPageCountFromHtml env html1 = Inr n"
    and "getUserDataFromHtml env html1 = Inr ud"
    and "getMovieDataFromHtml env html1 = Inr ms1"
    and "\<forall>k \<in> {2..n}. \<exists>ms. page_task env (pageUrl u k) = Inr ms"
    and "completion_order (n - 1) order"
  shows "fst (handler env order (request u)) =
           Some \<lparr>statusCode = status res1, headers = success_headers,
                 body = DataBody
                   (map JSON_movie
                      (ms1 @ concat (map (\<lambda>k. page_entries env (pageUrl u k)) [2..<Suc n])))
                   (name ud) (profilePicUrl ud)\<rparr>"
proof -
  from assms(1) have valid: "startsWith u (str ''https://letterboxd.com/'')"
    by (simp add: startsWith_iff)
  show ?thesis
    unfolding handler_all_pages [OF valid assms(2-8)] by simp
qed

text \<open>
  C10, a witness: a profile that does not exist is answered with status 404 and an empty
  result.
\<close>

theorem status_of_first_page_witness:
  "fst (handler sample_env [] (request (str ''https://letterboxd.com/nobody/films/diary/''))) =
     Some \<lparr>statusCode = 404, headers = success_headers, body = DataBody [] [] None\<rparr>"
proof -
  have valid: "\<exists>rest. str ''https://letterboxd.com/nobody/films/diary/'' =
                        str ''https://letterboxd.com/'' @ rest"
    using nobody_page(1) by (simp add: startsWith_iff)
  have read: "text_of \<lparr>status = 404, text_of = Inr (str ''not found'')\<rparr> = Inr (str ''not found'')"
    by simp
  have later: "\<forall>k \<in> {2..0}. \<exists>ms.
      page_task sample_env (pageUrl (str ''https://letterboxd.com/nobody/films/diary/'') k) = Inr ms"
    by simp
  have order: "completion_order (0 - 1) []"
    by (simp add: completion_order_def)
  from status_of_first_page [OF valid nobody_page(2) read nobody_page(3) nobody_page(4)
      nobody_page(5) later order]
  show ?thesis
    by simp
qed

text \<open>
  C10, the counterexample: page 1 is fetched with status 200, the fetch of page 2
  fails, and the response has status 500. And a page 1 fetched with status 200 in which
  the title of a row cannot be read is answered with status 500 as well.
\<close>

theorem later_page_failure_is_500:
  "fetch page2_down sample_url = Inr \<lparr>status = 200, text_of = Inr (str ''page 1'')\<rparr> \<and>
   fst (handler page2_down [1, 0] (request sample_url)) =
     Some \<lparr>statusCode = 500, headers = [],
           body = ErrorBody (str ''Failed to fetch data: TypeError: fetch failed'')\<rparr> \<and>
   fetch sample_env (str ''https://letterboxd.com/deep/films/diary/'') =
     Inr \<lparr>status = 200, text_of = Inr (str ''deep row'')\<rparr> \<and>
   fst (handler sample_env [] (request (str ''https://letterboxd.com/deep/films/diary/''))) =
     Some \<lparr>statusCode = 500, headers = [],
           body = ErrorBody
             (str ''Failed to fetch data: RangeError: Maximum call stack size exceeded'')\<rparr>"
proof -
  have n: "paginate_pages (cheerio_load page2_down (str ''page 1'')) = 3"
    using page2_down_pages(3) by (simp add: getPageCountFromHtml_def)
  have all: "Promise_all
               [Inl (FetchError (str ''TypeError: fetch failed'')),
                Inr (page_entries page2_down (pageUrl sample_url 3))] [1, 0] =
             RejectedWith (FetchError (str ''TypeError: fetch failed''))"
    by (simp add: Promise_all_def settle_def)
  have msg: "str ''Failed to fetch data: '' @ str ''TypeError: fetch failed'' =
              str ''Failed to fetch data: TypeError: fetch failed''"
    "str ''Failed to fetch data: '' @ str ''RangeError: Maximum call stack size exceeded'' =
              str ''Failed to fetch data: RangeError: Maximum call stack size exceeded''"
    by (simp_all add: str_def)
  note handler_request [OF sample_url_valid, of page2_down "[1, 0]",
      unfolded page2_down_pages(2) sum.case page2_down_pages(6) page2_down_pages(7)
        n page2_down_pages(5) all promise.case]
  then have 1: "fst (handler page2_down [1, 0] (request sample_url)) =
     Some \<lparr>statusCode = 500, headers = [],
           body = ErrorBody (str ''Failed to fetch data: TypeError: fetch failed'')\<rparr>"
    by (simp add: failure_def error_text_def msg)
  note handler_request [OF deep_page(1), of sample_env "[]",
      unfolded deep_page(3) sum.case deep_page(4) deep_page(5)]
  then have 2: "fst (handler sample_env [] (request (str ''https://letterboxd.com/deep/films/diary/''))) =
     Some \<lparr>statusCode = 500, headers = [],
           body = ErrorBody
             (str ''Failed to fetch data: RangeError: Maximum call stack size exceeded'')\<rparr>"
    by (simp add: failure_def error_text_def stack_overflow_def msg)
  from page2_down_pages(1) 1 deep_page(2) 2 show ?thesis
    by (intro conjI)
qed

end
